theory Spec2Isabelle
  imports Complex_Main "HOL-Library.Monad_Syntax"
begin

section \<open>Data model of src/App.tsx\<close>

text \<open>
  The component \<open>TypingSpeedApp\<close> keeps its whole state in React state variables and one
  timer reference. The embedding below makes that state a record and every callback a
  function from state to state.

  Numbers: a TypeScript \<open>number\<close> that holds a length, a counter, a clock reading in
  milliseconds or the result of \<open>Math.round\<close>/\<open>Math.floor\<close> is an integer, modelled by
  \<open>nat\<close> or \<open>int\<close> (such a value is an exact double below \<open>2 ^ 53\<close>). \<open>Math.round\<close>
  (nearest integer, a tie going up) is \<open>round\<close>, that is \<open>\<lfloor>x + 1/2\<rfloor>\<close>, and \<open>Math.floor\<close> is
  \<open>floor\<close>. For the other numbers the theory has two embeddings of the arithmetic.

  \<^item> The exact one (\<open>calculateStats\<close>, \<open>handleInputChange\<close>): \<open>/\<close>, \<open>*\<close> and \<open>-\<close> are the
    operations of the reals and \<open>Math.sqrt\<close> is \<open>sqrt\<close>. It carries the properties that do
    not hang on the last binary digit: the counters, the transitions of the session, the
    history, the bounds, and the consistency score (ECMAScript leaves the precision of
    \<open>Math.pow\<close> and \<open>Math.sqrt\<close> to the implementation).
  \<^item> The IEEE one (\<open>calculateStats64\<close>, \<open>handleInputChange64\<close>, further down): every
    division, multiplication and subtraction is rounded to the nearest double, a tie going
    to the even significand. It carries the values of the accuracy, of the two speeds and
    of the sampled speed, which the program computes in doubles.

  Strings are lists of characters; \<open>s.length\<close> is \<open>length s\<close> and \<open>s[i]\<close> is
  \<open>s ! i\<close>, read only below the length.
\<close>

record WpmHistory =
  time :: int
  wpm :: int

record TypingStats =
  wpm :: int
  rawWpm :: int
  accuracy :: real
  correctChars :: nat
  incorrectChars :: nat
  totalChars :: nat
  timeElapsed :: real
  consistency :: int

datatype TestState = Idle | Active | Completed | Paused

datatype Difficulty = Easy | Medium | Hard | Custom

datatype TestMode = Time | Words | Quote

record TestResult = TypingStats +
  timestamp :: int
  difficulty :: Difficulty
  textLength :: nat

text \<open>
  The state variables of the component, in the order of their \<open>useState\<close> calls.
  \<open>timerRef\<close> is the handle stored in \<open>timerRef.current\<close> (\<open>None\<close> for \<open>null\<close>);
  \<open>liveTimers\<close> lists the handles of the intervals that \<open>setInterval\<close> has scheduled and
  \<open>clearInterval\<close> has not yet cancelled, and \<open>nextTimer\<close> is the next fresh handle
  (handles are positive, so a stored handle passes the test \<open>if (timerRef.current)\<close>).
\<close>

record AppState =
  testText :: string
  customText :: string
  userInput :: string
  testState :: TestState
  difficulty :: Difficulty
  testMode :: TestMode
  targetTime :: int
  targetWords :: int
  startTime :: int
  currentTime :: int
  wpmHistory :: "WpmHistory list"
  stats :: TypingStats
  testResults :: "TestResult list"
  currentCharIndex :: nat
  showSettings :: bool
  capsLockWarning :: bool
  timerRef :: "nat option"
  liveTimers :: "nat list"
  nextTimer :: nat

definition initialStats :: TypingStats where
  "initialStats =
     \<lparr>TypingStats.wpm = 0, rawWpm = 0, accuracy = 0, correctChars = 0, incorrectChars = 0,
      totalChars = 0, timeElapsed = 0, consistency = 0\<rparr>"

definition initialState :: AppState where
  "initialState =
     \<lparr>testText = [], customText = [], userInput = [], testState = Idle,
      difficulty = Medium, testMode = Quote, targetTime = 60, targetWords = 50,
      startTime = 0, currentTime = 0, wpmHistory = [], stats = initialStats,
      testResults = [], currentCharIndex = 0, showSettings = False,
      capsLockWarning = False, timerRef = None, liveTimers = [], nextTimer = 1\<rparr>"

section \<open>calculateStats\<close>

text \<open>
  Lines 105 to 113 of the source repeat the first lines of \<open>handleInputChange\<close>
  (lines 192 to 199) in the middle of \<open>calculateStats\<close>; with them the file's brackets do
  not balance. The model is the function around that fragment: the counting loop of lines
  94 to 104 and the computations of lines 114 to 140 on the function's own parameters
  \<open>input\<close>, \<open>text\<close>, \<open>timeElapsed\<close> and \<open>wpmHist\<close>.
\<close>

text \<open>The \<open>for\<close> loop of lines 98 to 104, with its index and its two counters.\<close>

function scoreLoop :: "string \<Rightarrow> string \<Rightarrow> nat \<Rightarrow> nat \<Rightarrow> nat \<Rightarrow> nat \<times> nat" where
  "scoreLoop input src i correctN incorrectN =
     (if i < length input then
        (if i < length src \<and> input ! i = src ! i
         then scoreLoop input src (i + 1) (correctN + 1) incorrectN
         else scoreLoop input src (i + 1) correctN (incorrectN + 1))
      else (correctN, incorrectN))"
  by pat_completeness auto
termination
  by (relation "measure (\<lambda>(input, src, i, correctN, incorrectN). length input - i)") auto

declare scoreLoop.simps [simp del]

text \<open>The locals of lines 114 to 119.\<close>

definition accuracyOf :: "nat \<Rightarrow> nat \<Rightarrow> real" where
  "accuracyOf correctN totalN = (if totalN > 0 then (real correctN / real totalN) * 100 else 0)"

definition wordsTyped :: "nat \<Rightarrow> real" where
  "wordsTyped totalN = real totalN / 5"

definition timeInMinutes :: "real \<Rightarrow> real" where
  "timeInMinutes elapsed = elapsed / 60"

definition grossWpm :: "nat \<Rightarrow> real \<Rightarrow> int" where
  "grossWpm totalN elapsed =
     (if timeInMinutes elapsed > 0 then round (wordsTyped totalN / timeInMinutes elapsed) else 0)"

definition errorsPerMinute :: "nat \<Rightarrow> real \<Rightarrow> real" where
  "errorsPerMinute incorrectN elapsed =
     (if timeInMinutes elapsed > 0 then real incorrectN / timeInMinutes elapsed else 0)"

definition netWpm :: "nat \<Rightarrow> nat \<Rightarrow> real \<Rightarrow> int" where
  "netWpm totalN incorrectN elapsed =
     max 0 (round (real_of_int (grossWpm totalN elapsed) - errorsPerMinute incorrectN elapsed))"

text \<open>
  Lines 122 to 129: the consistency before its final rounding. \<open>reduce\<close> with an initial
  value is a left fold.
\<close>

definition consistencyOf :: "WpmHistory list \<Rightarrow> real" where
  "consistencyOf wpmHist =
     (if length wpmHist > 1 then
        (let wpmValues = map WpmHistory.wpm wpmHist;
             mean = real_of_int (foldl (\<lambda>a b. a + b) 0 wpmValues) / real (length wpmValues);
             variance = foldl (\<lambda>a b. a + (real_of_int b - mean) ^ 2) 0 wpmValues
                          / real (length wpmValues);
             stdDev = sqrt variance
         in max 0 (min 100 (100 - stdDev * 2)))
      else 100)"

definition calculateStats :: "string \<Rightarrow> string \<Rightarrow> real \<Rightarrow> WpmHistory list \<Rightarrow> TypingStats" where
  "calculateStats input src elapsed wpmHist =
     (let totalN = length input;
          (correctN, incorrectN) = scoreLoop input src 0 0 0
      in \<lparr>TypingStats.wpm = netWpm totalN incorrectN elapsed,
          rawWpm = grossWpm totalN elapsed,
          accuracy = real_of_int (round (accuracyOf correctN totalN * 100)) / 100,
          correctChars = correctN,
          incorrectChars = incorrectN,
          totalChars = totalN,
          timeElapsed = elapsed,
          consistency = round (consistencyOf wpmHist)\<rparr>)"

section \<open>The timer and the session callbacks\<close>

text \<open>
  \<open>setInterval\<close> schedules a new interval under a fresh handle and returns the handle;
  \<open>clearInterval h\<close> cancels the interval of handle \<open>h\<close> and does nothing when that
  interval is not scheduled. Neither \<open>clearInterval\<close> nor any callback writes \<open>null\<close>
  back into \<open>timerRef.current\<close>.
\<close>

definition setIntervalRef :: "AppState \<Rightarrow> AppState" where
  "setIntervalRef s =
     s\<lparr>timerRef := Some (nextTimer s),
       liveTimers := nextTimer s # liveTimers s,
       nextTimer := nextTimer s + 1\<rparr>"

definition clearIntervalRef :: "AppState \<Rightarrow> AppState" where
  "clearIntervalRef s =
     (case timerRef s of
        None \<Rightarrow> s
      | Some h \<Rightarrow> s\<lparr>liveTimers := removeAll h (liveTimers s)\<rparr>)"

text \<open>
  \<open>startTest\<close> (lines 143 to 160). The text that \<open>generateText(difficulty)\<close> returns and
  the two readings of \<open>Date.now()\<close> are parameters.
\<close>

definition startTest :: "string \<Rightarrow> int \<Rightarrow> int \<Rightarrow> AppState \<Rightarrow> AppState" where
  "startTest newText now1 now2 s =
     setIntervalRef
       (s\<lparr>testText := newText, userInput := [], currentCharIndex := 0, wpmHistory := [],
          testState := Active, startTime := now1, currentTime := now2\<rparr>)"

text \<open>\<open>pauseTest\<close> (lines 162 to 177).\<close>

definition pauseTest :: "AppState \<Rightarrow> AppState" where
  "pauseTest s =
     (if testState s = Active then clearIntervalRef (s\<lparr>testState := Paused\<rparr>)
      else if testState s = Paused then setIntervalRef (s\<lparr>testState := Active\<rparr>)
      else s)"

text \<open>\<open>resetTest\<close> (lines 179 to 190).\<close>

definition resetTest :: "AppState \<Rightarrow> AppState" where
  "resetTest s =
     clearIntervalRef
       (s\<lparr>testState := Idle, userInput := [], currentCharIndex := 0, currentTime := 0,
          wpmHistory := [], capsLockWarning := False\<rparr>)"

text \<open>The callback of the interval (lines 157 to 159): the tick stores the clock.\<close>

definition tick :: "int \<Rightarrow> AppState \<Rightarrow> AppState" where
  "tick now s = s\<lparr>currentTime := now\<rparr>"

section \<open>handleInputChange\<close>

text \<open>
  \<open>String.prototype.split\<close> with a one-character separator: the pieces between the
  separators, empty pieces included, so that the empty string gives one empty piece.
\<close>

fun splitOn :: "char \<Rightarrow> string \<Rightarrow> string list" where
  "splitOn c [] = [[]]"
| "splitOn c (x # xs) =
     (if x = c then [] # splitOn c xs
      else (case splitOn c xs of
              [] \<Rightarrow> [[x]]
            | w # ws \<Rightarrow> (x # w) # ws))"

text \<open>
  \<open>wpmHistory[wpmHistory.length - 1]?.time\<close>: \<open>None\<close> stands for \<open>undefined\<close>, the value
  on an empty list.
\<close>

definition lastTime :: "WpmHistory list \<Rightarrow> int option" where
  "lastTime h = (if h = [] then None else Some (time (last h)))"

text \<open>The locals \<open>timeElapsed\<close> (line 199) and \<open>isCompleted\<close> (lines 212 to 215).\<close>

definition elapsedOf :: "AppState \<Rightarrow> real" where
  "elapsedOf s = real_of_int (currentTime s - startTime s) / 1000"

definition isCompleted :: "AppState \<Rightarrow> string \<Rightarrow> bool" where
  "isCompleted s v =
     ((testMode s = Quote \<and> length v = length (testText s)) \<or>
      (testMode s = Time \<and> elapsedOf s \<ge> real_of_int (targetTime s)) \<or>
      (testMode s = Words \<and> int (length (splitOn CHR '' '' v)) \<ge> targetWords s))"

text \<open>The condition of line 202 and the sample of lines 203 to 205.\<close>

definition sampleDue :: "AppState \<Rightarrow> bool" where
  "sampleDue s =
     (elapsedOf s > 0 \<and> \<lfloor>elapsedOf s\<rfloor> mod 2 = 0 \<and>
      Some \<lfloor>elapsedOf s\<rfloor> \<noteq> lastTime (wpmHistory s))"

definition sampleOf :: "AppState \<Rightarrow> string \<Rightarrow> WpmHistory" where
  "sampleOf s v =
     \<lparr>time = \<lfloor>elapsedOf s\<rfloor>,
      WpmHistory.wpm = round ((real (length v) / 5) / (elapsedOf s / 60))\<rparr>"

text \<open>
  \<open>handleInputChange\<close> (lines 192 to 233). \<open>v\<close> is \<open>e.target.value\<close> and \<open>now\<close> the
  time that \<open>new Date()\<close> reads. The callback reads the state variables of the current
  render, so the statistics are computed from the sample list as it was before this
  update; the state setters take effect together in the state returned.
\<close>

definition handleInputChange :: "int \<Rightarrow> string \<Rightarrow> AppState \<Rightarrow> AppState" where
  "handleInputChange now v s =
     (if testState s \<noteq> Active then s
      else
        (let s1 = s\<lparr>userInput := v, currentCharIndex := length v\<rparr>;
             s2 = (if sampleDue s
                   then s1\<lparr>wpmHistory := wpmHistory s1 @ [sampleOf s v]\<rparr> else s1);
             currentStats = calculateStats v (testText s) (elapsedOf s) (wpmHistory s);
             s3 = s2\<lparr>stats := currentStats\<rparr>
         in if isCompleted s v then
              (let s4 = clearIntervalRef (s3\<lparr>testState := Completed\<rparr>);
                   result = TypingStats.extend currentStats
                              (TestResult.fields now (difficulty s) (length (testText s)))
               in s4\<lparr>testResults := take 20 (result # testResults s4)\<rparr>)
            else s3))"

section \<open>The timer discipline and the reachable states\<close>

text \<open>
  While a test is active exactly one interval is scheduled, the one \<open>timerRef\<close> holds;
  otherwise none is. The reachable states are those the interface can produce: the Start
  and Try Again buttons and the Tab key call \<open>startTest\<close> only in the idle and completed
  states; the settings are plain state setters.
\<close>

definition timerInv :: "AppState \<Rightarrow> bool" where
  "timerInv s =
     (if testState s = Active then
        (case timerRef s of None \<Rightarrow> False | Some h \<Rightarrow> liveTimers s = [h])
      else liveTimers s = [])"

inductive reachable :: "AppState \<Rightarrow> bool" where
  init: "reachable initialState"
| start: "reachable s \<Longrightarrow> testState s = Idle \<or> testState s = Completed \<Longrightarrow>
          reachable (startTest newText now1 now2 s)"
| pause: "reachable s \<Longrightarrow> reachable (pauseTest s)"
| reset: "reachable s \<Longrightarrow> reachable (resetTest s)"
| input: "reachable s \<Longrightarrow> reachable (handleInputChange now v s)"
| ticks: "reachable s \<Longrightarrow> liveTimers s \<noteq> [] \<Longrightarrow> reachable (tick now s)"
| settings: "reachable s \<Longrightarrow>
          reachable (s\<lparr>customText := ct, difficulty := d, testMode := m, targetTime := tt,
                       targetWords := tw, showSettings := b, capsLockWarning := w\<rparr>)"

section \<open>The consistency score in the words of the specification\<close>




section \<open>The arithmetic of IEEE doubles\<close>

text \<open>
  A finite double is modelled by the real number it stands for (the two zeros are one
  number; no operation of the program tells them apart). \<open>fl x\<close> is the double nearest
  to the real \<open>x\<close>, a tie going to the even significand, with an unbounded exponent
  range above: the spacing of the doubles around \<open>x\<close> is \<open>quantum x\<close>, 52 binary places
  below the leading bit of \<open>x\<close>, and never below \<open>2 powi (- 1074)\<close>, the spacing of the
  subnormal numbers. An operation of the program is the exact operation followed by
  \<open>fl\<close>; where IEEE arithmetic gives an infinity or a NaN (the rounded result reaches
  \<open>2 ^ 1024\<close>, or the divisor is zero) the operation is \<open>None\<close>.
\<close>

definition roundEven :: "real \<Rightarrow> int" where
  "roundEven y =
     (let f = \<lfloor>y\<rfloor>; r = y - of_int f
      in if r < 1 / 2 then f else if 1 / 2 < r then f + 1
         else if even f then f else f + 1)"

definition quantum :: "real \<Rightarrow> real" where
  "quantum x = 2 powi (max \<lfloor>log 2 \<bar>x\<bar>\<rfloor> (- 1022) - 52)"

definition fl :: "real \<Rightarrow> real" where
  "fl x = (if x = 0 then 0 else of_int (roundEven (x / quantum x)) * quantum x)"

definition finite64 :: "real \<Rightarrow> real option" where
  "finite64 x = (if \<bar>x\<bar> < 2 ^ 1024 then Some x else None)"

definition div64 :: "real \<Rightarrow> real \<Rightarrow> real option" where
  "div64 a b = (if b = 0 then None else finite64 (fl (a / b)))"

definition mul64 :: "real \<Rightarrow> real \<Rightarrow> real option" where
  "mul64 a b = finite64 (fl (a * b))"

definition sub64 :: "real \<Rightarrow> real \<Rightarrow> real option" where
  "sub64 a b = finite64 (fl (a - b))"

section \<open>The statistics and the input update in double arithmetic\<close>

text \<open>
  The same lines of the source as \<open>calculateStats\<close> and \<open>handleInputChange\<close> above, with
  the arithmetic of doubles. A function returns \<open>None\<close> when one of its numbers is not
  finite. \<open>correctN\<close>, \<open>incorrectN\<close> and \<open>totalN\<close> are lengths of strings, below \<open>2 ^ 53\<close>
  in every JavaScript engine, so \<open>real\<close> converts them exactly. The consistency score
  stays in exact arithmetic.
\<close>

text \<open>
  Lines 114 to 119 and line 134. The parameter \<open>elapsed\<close> is the double that
  \<open>timeElapsed\<close> holds.
\<close>

definition accuracyOf64 :: "nat \<Rightarrow> nat \<Rightarrow> real option" where
  "accuracyOf64 correctN totalN =
     (if totalN > 0 then do { r \<leftarrow> div64 (real correctN) (real totalN); mul64 r 100 }
      else Some 0)"

definition wordsTyped64 :: "nat \<Rightarrow> real option" where
  "wordsTyped64 totalN = div64 (real totalN) 5"

definition timeInMinutes64 :: "real \<Rightarrow> real option" where
  "timeInMinutes64 elapsed = div64 elapsed 60"

definition grossWpm64 :: "nat \<Rightarrow> real \<Rightarrow> int option" where
  "grossWpm64 totalN elapsed =
     do { w \<leftarrow> wordsTyped64 totalN;
          m \<leftarrow> timeInMinutes64 elapsed;
          if m > 0 then map_option round (div64 w m) else Some 0 }"

definition errorsPerMinute64 :: "nat \<Rightarrow> real \<Rightarrow> real option" where
  "errorsPerMinute64 incorrectN elapsed =
     do { m \<leftarrow> timeInMinutes64 elapsed;
          if m > 0 then div64 (real incorrectN) m else Some 0 }"

definition netWpm64 :: "nat \<Rightarrow> nat \<Rightarrow> real \<Rightarrow> int option" where
  "netWpm64 totalN incorrectN elapsed =
     do { g \<leftarrow> grossWpm64 totalN elapsed;
          p \<leftarrow> errorsPerMinute64 incorrectN elapsed;
          d \<leftarrow> sub64 (real_of_int g) p;
          Some (max 0 (round d)) }"

definition roundedAccuracy64 :: "nat \<Rightarrow> nat \<Rightarrow> real option" where
  "roundedAccuracy64 correctN totalN =
     do { a \<leftarrow> accuracyOf64 correctN totalN;
          b \<leftarrow> mul64 a 100;
          div64 (real_of_int (round b)) 100 }"

definition calculateStats64 ::
  "string \<Rightarrow> string \<Rightarrow> real \<Rightarrow> WpmHistory list \<Rightarrow> TypingStats option" where
  "calculateStats64 input src elapsed wpmHist =
     (let totalN = length input;
          (correctN, incorrectN) = scoreLoop input src 0 0 0
      in do { net \<leftarrow> netWpm64 totalN incorrectN elapsed;
              gross \<leftarrow> grossWpm64 totalN elapsed;
              acc \<leftarrow> roundedAccuracy64 correctN totalN;
              Some \<lparr>TypingStats.wpm = net,
                    rawWpm = gross,
                    accuracy = acc,
                    correctChars = correctN,
                    incorrectChars = incorrectN,
                    totalChars = totalN,
                    timeElapsed = elapsed,
                    consistency = round (consistencyOf wpmHist)\<rparr> })"

text \<open>
  Lines 199 to 215. The clock readings \<open>currentTime\<close> and \<open>startTime\<close> are whole
  milliseconds below \<open>2 ^ 53\<close>, so they are doubles as they stand.
\<close>

definition elapsedOf64 :: "AppState \<Rightarrow> real option" where
  "elapsedOf64 s =
     do { d \<leftarrow> sub64 (real_of_int (currentTime s)) (real_of_int (startTime s));
          div64 d 1000 }"

definition isCompleted64 :: "AppState \<Rightarrow> real \<Rightarrow> string \<Rightarrow> bool" where
  "isCompleted64 s e v =
     ((testMode s = Quote \<and> length v = length (testText s)) \<or>
      (testMode s = Time \<and> e \<ge> real_of_int (targetTime s)) \<or>
      (testMode s = Words \<and> int (length (splitOn CHR '' '' v)) \<ge> targetWords s))"

definition sampleDue64 :: "AppState \<Rightarrow> real \<Rightarrow> bool" where
  "sampleDue64 s e =
     (e > 0 \<and> \<lfloor>e\<rfloor> mod 2 = 0 \<and> Some \<lfloor>e\<rfloor> \<noteq> lastTime (wpmHistory s))"

definition sampleOf64 :: "real \<Rightarrow> string \<Rightarrow> WpmHistory option" where
  "sampleOf64 e v =
     do { w \<leftarrow> div64 (real (length v)) 5;
          m \<leftarrow> div64 e 60;
          currentWpm \<leftarrow> div64 w m;
          Some \<lparr>time = \<lfloor>e\<rfloor>, WpmHistory.wpm = round currentWpm\<rparr> }"

text \<open>
  \<open>handleInputChange\<close> (lines 192 to 233) in doubles. The sample is computed only when
  it is due, as in the source.
\<close>

definition handleInputChange64 :: "int \<Rightarrow> string \<Rightarrow> AppState \<Rightarrow> AppState option" where
  "handleInputChange64 now v s =
     (if testState s \<noteq> Active then Some s
      else
        do { e \<leftarrow> elapsedOf64 s;
             let s1 = s\<lparr>userInput := v, currentCharIndex := length v\<rparr>;
             s2 \<leftarrow> (if sampleDue64 s e
                    then map_option (\<lambda>x. s1\<lparr>wpmHistory := wpmHistory s1 @ [x]\<rparr>) (sampleOf64 e v)
                    else Some s1);
             currentStats \<leftarrow> calculateStats64 v (testText s) e (wpmHistory s);
             let s3 = s2\<lparr>stats := currentStats\<rparr>;
             Some (if isCompleted64 s e v then
                     (let s4 = clearIntervalRef (s3\<lparr>testState := Completed\<rparr>);
                          result = TypingStats.extend currentStats
                                     (TestResult.fields now (difficulty s) (length (testText s)))
                      in s4\<lparr>testResults := take 20 (result # testResults s4)\<rparr>)
                   else s3) })"

section \<open>Properties of the counting loop\<close>

lemma scoreLoop_filter:
  "scoreLoop input src i c n =
     (c + length (filter (\<lambda>j. j < length src \<and> input ! j = src ! j) [i..<length input]),
      n + length (filter (\<lambda>j. \<not> (j < length src \<and> input ! j = src ! j)) [i..<length input]))"
proof (induction input src i c n rule: scoreLoop.induct)
  case (1 input src i c n)
  show ?case
  proof (cases "i < length input")
    case False
    then show ?thesis by (simp add: scoreLoop.simps [of input src i c n])
  next
    case True
    then have upt: "[i..<length input] = i # [i + 1..<length input]"
      by (simp add: upt_conv_Cons)
    show ?thesis
    proof (cases "i < length src \<and> input ! i = src ! i")
      case True
      with \<open>i < length input\<close> "1.IH"(1) show ?thesis
        by (simp add: scoreLoop.simps [of input src i c n] upt)
    next
      case False
      with \<open>i < length input\<close> "1.IH"(2) show ?thesis
        by (auto simp add: scoreLoop.simps [of input src i c n] upt)
    qed
  qed
qed

lemma length_filter_upt_card:
  "length (filter P [0..<n]) = card {j. j < n \<and> P j}"
proof -
  have "length (filter P [0..<n]) = card ({j. P j} \<inter> set [0..<n])"
    by (rule distinct_length_filter) simp
  also have "{j. P j} \<inter> set [0..<n] = {j. j < n \<and> P j}" by auto
  finally show ?thesis .
qed

lemma scoreLoop_card:
  "scoreLoop input src 0 0 0 =
     (card {j. j < length input \<and> j < length src \<and> input ! j = src ! j},
      card {j. j < length input \<and> \<not> (j < length src \<and> input ! j = src ! j)})"
  by (simp add: scoreLoop_filter length_filter_upt_card)

lemma scoreLoop_sum:
  "scoreLoop input src 0 0 0 = (c, n) \<Longrightarrow> c + n = length input"
  using sum_length_filter_compl [of "\<lambda>j. j < length src \<and> input ! j = src ! j" "[0..<length input]"]
  by (simp add: scoreLoop_filter)

section \<open>Properties of the rounding and of the folds\<close>






lemma consistencyOf_bounds: "0 \<le> consistencyOf h \<and> consistencyOf h \<le> 100"
  by (simp add: consistencyOf_def Let_def)

lemma round_bounds:
  fixes x :: real
  assumes "0 \<le> x" "x \<le> of_int k"
  shows "0 \<le> round x \<and> round x \<le> k"
proof -
  have "round (0::real) \<le> round x" using assms(1) by (rule round_mono)
  moreover have "round x \<le> round (of_int k :: real)" using assms(2) by (rule round_mono)
  ultimately show ?thesis by simp
qed

lemma accuracyOf_bounds: "c \<le> t \<Longrightarrow> 0 \<le> accuracyOf c t \<and> accuracyOf c t \<le> 100"
  by (simp add: accuracyOf_def divide_le_eq)


section \<open>Properties of the callbacks\<close>

lemma length_splitOn: "length (splitOn c v) = Suc (length (filter (\<lambda>x. x = c) v))"
  by (induction v) (auto split: list.splits)

lemma handleInputChange_testState:
  "testState s = Active \<Longrightarrow>
   testState (handleInputChange now v s) = (if isCompleted s v then Completed else Active)"
  by (simp add: handleInputChange_def Let_def clearIntervalRef_def split: option.splits)




lemma timerInv_startTest:
  "timerInv s \<Longrightarrow> testState s \<noteq> Active \<Longrightarrow> timerInv (startTest newText now1 now2 s)"
  by (simp add: timerInv_def startTest_def setIntervalRef_def)

lemma timerInv_pauseTest: "timerInv s \<Longrightarrow> timerInv (pauseTest s)"
  by (auto simp add: timerInv_def pauseTest_def setIntervalRef_def clearIntervalRef_def
      split: option.splits)

lemma timerInv_resetTest: "timerInv s \<Longrightarrow> timerInv (resetTest s)"
  by (auto simp add: timerInv_def resetTest_def clearIntervalRef_def split: option.splits if_splits)

lemma timerInv_handleInputChange: "timerInv s \<Longrightarrow> timerInv (handleInputChange now v s)"
  by (auto simp add: timerInv_def handleInputChange_def Let_def clearIntervalRef_def
      split: option.splits if_splits)

lemma reachable_timerInv: "reachable s \<Longrightarrow> timerInv s"
proof (induction rule: reachable.induct)
  case init
  show ?case by (simp add: timerInv_def initialState_def)
next
  case (start s newText now1 now2)
  then show ?case by (auto intro: timerInv_startTest)
next
  case (pause s)
  then show ?case by (simp add: timerInv_pauseTest)
next
  case (reset s)
  then show ?case by (simp add: timerInv_resetTest)
next
  case (input s now v)
  then show ?case by (simp add: timerInv_handleInputChange)
next
  case (ticks s now)
  then show ?case by (auto simp add: timerInv_def tick_def split: option.splits if_splits)
next
  case (settings s ct d m tt tw b w)
  then show ?case by (auto simp add: timerInv_def split: option.splits if_splits)
qed

lemma removeAll_only: "set xs \<subseteq> {h} \<Longrightarrow> removeAll h xs = []"
  by (induction xs) auto

lemma timerInv_live: "timerInv s \<Longrightarrow> set (liveTimers s) \<subseteq> set_option (timerRef s)"
  by (auto simp add: timerInv_def split: if_splits option.splits)

section \<open>When the accuracy is 100\<close>

lemma round_eq_iff: "round x = k \<longleftrightarrow> of_int k \<le> x + 1 / 2 \<and> x + 1 / 2 < of_int k + 1"
  for x :: real
  unfolding round_def by (rule floor_eq_iff)

lemma accuracy_100_counts:
  assumes cn: "scoreLoop input src 0 0 0 = (c, n)"
  shows "accuracy (calculateStats input src e h) = 100 \<longleftrightarrow> input \<noteq> [] \<and> 20000 * n \<le> length input"
proof (cases "input = []")
  case True
  then show ?thesis
    by (simp add: calculateStats_def Let_def accuracyOf_def split: prod.splits)
next
  case False
  define t where "t = length input"
  have t: "0 < t" using False by (simp add: t_def)
  have sum: "c + n = t" using scoreLoop_sum [OF cn] by (simp add: t_def)
  have acc: "accuracy (calculateStats input src e h)
               = real_of_int (round (real c / real t * 100 * 100)) / 100"
    using t by (simp add: calculateStats_def cn Let_def accuracyOf_def t_def)
  have "accuracy (calculateStats input src e h) = 100 \<longleftrightarrow>
          round (real c / real t * 100 * 100) = 10000"
    unfolding acc by (simp add: field_simps)
  also have "\<dots> \<longleftrightarrow> 10000 \<le> real c / real t * 100 * 100 + 1 / 2 \<and>
                      real c / real t * 100 * 100 + 1 / 2 < 10001"
    by (simp add: round_eq_iff)
  also have "\<dots> \<longleftrightarrow> 19999 * real t \<le> 20000 * real c \<and> 20000 * real c < 20001 * real t"
    using t by (simp add: field_simps)
  also have "\<dots> \<longleftrightarrow> 19999 * t \<le> 20000 * c \<and> 20000 * c < 20001 * t"
    by (metis (mono_tags, opaque_lifting) of_nat_le_iff of_nat_less_iff of_nat_mult of_nat_numeral)
  also have "\<dots> \<longleftrightarrow> 20000 * n \<le> t"
    using sum t by auto
  finally show ?thesis using False by (simp add: t_def)
qed

lemma incorrect_zero_iff:
  assumes cn: "scoreLoop input src 0 0 0 = (c, n)"
  shows "n = 0 \<longleftrightarrow> (\<forall>i<length input. i < length src \<and> input ! i = src ! i)"
proof -
  have fin: "finite {j. j < length input \<and> \<not> (j < length src \<and> input ! j = src ! j)}"
    by simp
  have "n = card {j. j < length input \<and> \<not> (j < length src \<and> input ! j = src ! j)}"
    using cn by (simp add: scoreLoop_card)
  then have "n = 0 \<longleftrightarrow> {j. j < length input \<and> \<not> (j < length src \<and> input ! j = src ! j)} = {}"
    using fin by (simp only: card_eq_0_iff) simp
  then show ?thesis by auto
qed

lemma one_wrong_at_end:
  "scoreLoop (replicate m a @ [b]) (replicate (Suc m) a) 0 0 0 = (c, n) \<Longrightarrow> a \<noteq> b \<Longrightarrow> n = 1"
proof -
  assume cn: "scoreLoop (replicate m a @ [b]) (replicate (Suc m) a) 0 0 0 = (c, n)" and ab: "a \<noteq> b"
  let ?inp = "replicate m a @ [b]" and ?src = "replicate (Suc m) a"
  have "{j. j < length ?inp \<and> \<not> (j < length ?src \<and> ?inp ! j = ?src ! j)} = {m}"
    using ab by (auto simp add: nth_append less_Suc_eq nth_Cons')
  then have "card {j. j < length ?inp \<and> \<not> (j < length ?src \<and> ?inp ! j = ?src ! j)} = 1"
    by simp
  with cn show "n = 1" by (simp add: scoreLoop_card)
qed

section \<open>Properties of the rounding to doubles\<close>

lemma quantum_pos: "0 < quantum x"
  by (simp add: quantum_def)

lemma roundEven_error: "\<bar>real_of_int (roundEven y) - y\<bar> \<le> 1 / 2"
proof -
  have "real_of_int \<lfloor>y\<rfloor> \<le> y" "y < real_of_int \<lfloor>y\<rfloor> + 1" by linarith+
  then show ?thesis by (auto simp add: roundEven_def Let_def)
qed

lemma roundEven_of_int: "roundEven (real_of_int k) = k"
  by (simp add: roundEven_def)

lemma fl_error_quantum: "\<bar>fl x - x\<bar> \<le> quantum x / 2"
proof (cases "x = 0")
  case True
  then show ?thesis using quantum_pos [of x] by (simp add: fl_def)
next
  case False
  have q: "0 < quantum x" by (rule quantum_pos)
  have "\<bar>real_of_int (roundEven (x / quantum x)) - x / quantum x\<bar> * quantum x \<le> 1 / 2 * quantum x"
    using roundEven_error [of "x / quantum x"] q by (intro mult_right_mono) simp_all
  moreover have "\<bar>real_of_int (roundEven (x / quantum x)) - x / quantum x\<bar> * quantum x
        = \<bar>real_of_int (roundEven (x / quantum x)) * quantum x - x\<bar>"
  proof -
    have "\<bar>real_of_int (roundEven (x / quantum x)) - x / quantum x\<bar> * quantum x
        = \<bar>(real_of_int (roundEven (x / quantum x)) - x / quantum x) * quantum x\<bar>"
      using q by (simp add: abs_mult)
    also have "(real_of_int (roundEven (x / quantum x)) - x / quantum x) * quantum x
        = real_of_int (roundEven (x / quantum x)) * quantum x - x"
      using q by (simp add: left_diff_distrib)
    finally show ?thesis .
  qed
  ultimately show ?thesis using False by (simp add: fl_def)
qed

lemma floor_log2_eq:
  assumes "2 powi k \<le> x" "x < 2 powi (k + 1)"
  shows "\<lfloor>log 2 x\<rfloor> = k"
proof -
  have pos: "0 < x" using assms(1) zero_less_power_int [of "2::real" k] by linarith
  have p: "(2::real) powr real_of_int j = 2 powi j" for j
    by (simp add: powr_real_of_int')
  have "real_of_int k \<le> log 2 x"
    using pos assms(1) by (simp add: le_log_iff p)
  moreover have "\<not> real_of_int (k + 1) \<le> log 2 x"
    using pos assms(2) p [of "k + 1"] by (simp add: le_log_iff)
  ultimately show ?thesis by (intro floor_unique) simp_all
qed

lemma floor_log2_le:
  assumes "0 < x" "x < 2 powi (k + 1)"
  shows "\<lfloor>log 2 x\<rfloor> \<le> k"
proof -
  have p: "(2::real) powr real_of_int j = 2 powi j" for j
    by (simp add: powr_real_of_int')
  have "\<not> real_of_int (k + 1) \<le> log 2 x"
    using assms p [of "k + 1"] by (simp add: le_log_iff)
  then have "log 2 x < real_of_int k + 1" by simp
  then show ?thesis by (simp add: floor_le_iff)
qed

lemma quantum_eq:
  assumes "2 powi k \<le> \<bar>x\<bar>" "\<bar>x\<bar> < 2 powi (k + 1)" "- 1022 \<le> k"
  shows "quantum x = 2 powi (k - 52)"
  using floor_log2_eq [OF assms(1,2)] assms(3) by (simp add: quantum_def max_def)

lemma quantum_le:
  assumes "\<bar>x\<bar> < 2 powi (k + 1)" "- 1022 \<le> k" "x \<noteq> 0"
  shows "quantum x \<le> 2 powi (k - 52)"
proof -
  have "\<lfloor>log 2 \<bar>x\<bar>\<rfloor> \<le> k" using assms by (intro floor_log2_le) simp_all
  then have "max \<lfloor>log 2 \<bar>x\<bar>\<rfloor> (- 1022) - 52 \<le> k - 52" using assms(2) by simp
  then show ?thesis unfolding quantum_def by (intro power_int_increasing) simp_all
qed

lemma fl_error:
  assumes "\<bar>x\<bar> < 2 powi (k + 1)" "- 1022 \<le> k"
  shows "\<bar>fl x - x\<bar> \<le> 2 powi (k - 53)"
proof (cases "x = 0")
  case True
  then show ?thesis by (simp add: fl_def)
next
  case False
  have "quantum x / 2 \<le> 2 powi (k - 52) / 2"
    using quantum_le [OF assms False] by simp
  also have "(2::real) powi (k - 52) / 2 = 2 powi (k - 53)"
    by (simp add: power_int_diff)
  finally show ?thesis using fl_error_quantum [of x] by linarith
qed

lemma fl_eval:
  assumes "2 powi k \<le> \<bar>x\<bar>" "\<bar>x\<bar> < 2 powi (k + 1)" "- 1022 \<le> k"
  shows "fl x = real_of_int (roundEven (x / 2 powi (k - 52))) * 2 powi (k - 52)"
proof -
  have "0 < \<bar>x\<bar>" using assms(1) zero_less_power_int [of "2::real" k] by linarith
  then have "x \<noteq> 0" by simp
  then show ?thesis by (simp add: fl_def quantum_eq [OF assms])
qed

lemma fl_0: "fl 0 = 0"
  by (simp add: fl_def)

lemma fl_bounds:
  assumes "\<bar>x\<bar> < 2 powi (k + 1)" "- 1022 \<le> k"
  shows "x - 2 powi (k - 53) \<le> fl x" and "fl x \<le> x + 2 powi (k - 53)"
  using fl_error [OF assms] by (simp_all add: abs_le_iff)

lemma accuracy64_error:
  assumes ct: "c \<le> t" and t: "0 < t"
  shows "\<bar>fl (real_of_int (round (fl (fl (fl (real c / real t) * 100) * 100))) / 100)
           - real c / real t * 100\<bar> \<le> 1 / 200 + 1 / 10 ^ 13"
proof -
  define x0 where "x0 = real c / real t"
  define r1 where "r1 = fl x0"
  define a where "a = fl (r1 * 100)"
  define b where "b = fl (a * 100)"
  define kk where "kk = round b"
  define acc where "acc = fl (real_of_int kk / 100)"
  have x0: "0 \<le> x0" "x0 \<le> 1"
    using ct t by (simp_all add: x0_def)
  have r1: "x0 - 1 / 2 ^ 53 \<le> r1" "r1 \<le> x0 + 1 / 2 ^ 53"
    using fl_bounds [of x0 0] x0 by (simp_all add: r1_def power_int_minus_divide)
  have a: "r1 * 100 - 1 / 2 ^ 47 \<le> a" "a \<le> r1 * 100 + 1 / 2 ^ 47"
    using fl_bounds [of "r1 * 100" 6] x0 r1 by (simp_all add: a_def power_int_minus_divide)
  have b: "a * 100 - 1 / 2 ^ 40 \<le> b" "b \<le> a * 100 + 1 / 2 ^ 40"
    using fl_bounds [of "a * 100" 13] x0 r1 a by (simp_all add: b_def power_int_minus_divide)
  have kk: "b - 1 / 2 \<le> real_of_int kk" "real_of_int kk \<le> b + 1 / 2"
    using of_int_round_ge [of b] of_int_round_le [of b] by (simp_all add: kk_def)
  have acc: "real_of_int kk / 100 - 1 / 2 ^ 47 \<le> acc" "acc \<le> real_of_int kk / 100 + 1 / 2 ^ 47"
    using fl_bounds [of "real_of_int kk / 100" 6] x0 r1 a b kk
    by (simp_all add: acc_def power_int_minus_divide)
  have up: "acc - x0 * 100 \<le> 1 / 200 + 1 / 10 ^ 13"
    using r1(2) a(2) b(2) kk(2) acc(2) by simp
  have lo: "- (1 / 200 + 1 / 10 ^ 13) \<le> acc - x0 * 100"
    using r1(1) a(1) b(1) kk(1) acc(1) by simp
  have "\<bar>acc - x0 * 100\<bar> \<le> 1 / 200 + 1 / 10 ^ 13"
    using up lo by (simp only: abs_le_iff) simp
  then show ?thesis
    by (simp add: acc_def kk_def b_def a_def r1_def x0_def)
qed

lemma floor_log2_bounds:
  assumes "0 < x"
  shows "2 powi \<lfloor>log 2 x\<rfloor> \<le> x" and "x < 2 powi (\<lfloor>log 2 x\<rfloor> + 1)"
proof -
  have p: "(2::real) powr real_of_int j = 2 powi j" for j
    by (simp add: powr_real_of_int')
  have "real_of_int \<lfloor>log 2 x\<rfloor> \<le> log 2 x" by simp
  then show "2 powi \<lfloor>log 2 x\<rfloor> \<le> x"
    using assms by (simp add: le_log_iff [of 2 x, symmetric] p [symmetric])
  have "log 2 x < real_of_int (\<lfloor>log 2 x\<rfloor> + 1)" by linarith
  then have "\<not> real_of_int (\<lfloor>log 2 x\<rfloor> + 1) \<le> log 2 x" by linarith
  then have "\<not> 2 powi (\<lfloor>log 2 x\<rfloor> + 1) \<le> x"
    using assms p [of "\<lfloor>log 2 x\<rfloor> + 1"] le_log_iff [of 2 x "real_of_int (\<lfloor>log 2 x\<rfloor> + 1)"]
    by simp
  then show "x < 2 powi (\<lfloor>log 2 x\<rfloor> + 1)" by simp
qed

lemma fl_rel_error:
  assumes "2 powi (- 1022) \<le> \<bar>x\<bar>"
  shows "\<bar>fl x - x\<bar> \<le> \<bar>x\<bar> / 2 ^ 53"
proof -
  have pos: "0 < \<bar>x\<bar>" using assms zero_less_power_int [of "2::real" "- 1022"] by linarith
  define k where "k = \<lfloor>log 2 \<bar>x\<bar>\<rfloor>"
  have b: "2 powi k \<le> \<bar>x\<bar>" "\<bar>x\<bar> < 2 powi (k + 1)"
    using floor_log2_bounds [OF pos] by (simp_all add: k_def)
  have "(2::real) powi (- 1022) < 2 powi (k + 1)" using assms b(2) by linarith
  then have "- 1022 < k + 1"
    using power_int_increasing [of "k + 1" "- 1022" "2::real"] by (cases "- 1022 < k + 1") auto
  then have k: "- 1022 \<le> k" by simp
  have "\<bar>fl x - x\<bar> \<le> 2 powi (k - 53)" using fl_error [OF b(2) k] .
  also have "(2::real) powi (k - 53) = 2 powi k / 2 ^ 53" by (simp add: power_int_diff)
  also have "\<dots> \<le> \<bar>x\<bar> / 2 ^ 53" using b(1) by (simp add: divide_right_mono)
  finally show ?thesis .
qed

lemma roundEven_nonneg: "0 \<le> y \<Longrightarrow> 0 \<le> roundEven y"
  by (auto simp add: roundEven_def Let_def)

lemma roundEven_nonpos: "y \<le> 0 \<Longrightarrow> roundEven y \<le> 0"
proof -
  assume y: "y \<le> 0"
  show ?thesis
  proof (cases "y = 0")
    case True
    then show ?thesis by (simp add: roundEven_def)
  next
    case False
    with y have "\<lfloor>y\<rfloor> \<le> - 1" by (simp add: floor_le_iff)
    then show ?thesis by (auto simp add: roundEven_def Let_def)
  qed
qed

lemma fl_nonneg: "0 \<le> x \<Longrightarrow> 0 \<le> fl x"
  using quantum_pos [of x] roundEven_nonneg [of "x / quantum x"] by (simp add: fl_def)

lemma fl_nonpos: "x \<le> 0 \<Longrightarrow> fl x \<le> 0"
  using quantum_pos [of x] roundEven_nonpos [of "x / quantum x"]
  by (simp add: fl_def mult_le_0_iff divide_le_0_iff)

lemma fl_pos:
  assumes "2 powi (- 1022) \<le> x"
  shows "0 < fl x"
proof -
  have pos: "0 < x" using assms zero_less_power_int [of "2::real" "- 1022"] by linarith
  have "\<bar>fl x - x\<bar> \<le> \<bar>x\<bar> / 2 ^ 53" using assms pos by (intro fl_rel_error) simp
  then have "x - x / 2 ^ 53 \<le> fl x" using pos by (simp only: abs_le_iff abs_of_pos) linarith
  moreover have "0 < x - x / 2 ^ 53" using pos by (simp add: field_simps)
  ultimately show ?thesis by linarith
qed

lemma fl_of_int:
  assumes "\<bar>k\<bar> \<le> 2 ^ 53"
  shows "fl (real_of_int k) = real_of_int k"
proof (cases "k = 0")
  case True
  then show ?thesis by (simp add: fl_def)
next
  case False
  define x where "x = real_of_int k"
  have pos: "0 < \<bar>x\<bar>" using False by (simp add: x_def)
  have one: "1 \<le> \<bar>x\<bar>" using False by (simp add: x_def flip: of_int_abs)
  have top: "\<bar>x\<bar> \<le> 2 ^ 53"
    using assms unfolding x_def by (metis of_int_abs of_int_le_iff of_int_numeral of_int_power)
  define j where "j = \<lfloor>log 2 \<bar>x\<bar>\<rfloor>"
  have b: "2 powi j \<le> \<bar>x\<bar>" "\<bar>x\<bar> < 2 powi (j + 1)"
    using floor_log2_bounds [OF pos] by (simp_all add: j_def)
  have j0: "0 \<le> j"
    using one pos by (simp add: j_def le_floor_iff le_log_iff)
  have "(2::real) powi j \<le> 2 powi 53" using b(1) top by simp
  then have j53: "j \<le> 53"
    using power_int_strict_increasing [of 53 j "2::real"] by (cases "j \<le> 53") auto
  have q: "quantum x = 2 powi (j - 52)"
    using j0 by (simp add: quantum_def j_def [symmetric] max_def)
  have "\<exists>m::int. x / 2 powi (j - 52) = real_of_int m"
  proof (cases "j \<le> 52")
    case True
    then have "(2::real) powi (j - 52) = 1 / 2 ^ nat (52 - j)"
      by (simp add: power_int_def inverse_eq_divide power_one_over)
    then have "x / 2 powi (j - 52) = real_of_int (k * 2 ^ nat (52 - j))"
      by (simp add: x_def)
    then show ?thesis by blast
  next
    case False
    with j53 have j: "j = 53" by simp
    with b(1) top have "\<bar>x\<bar> = 2 ^ 53" by simp
    then have "\<bar>k\<bar> = 2 ^ 53"
      unfolding x_def by (metis of_int_abs of_int_eq_iff of_int_numeral of_int_power)
    then have "k = 2 ^ 53 \<or> k = - (2 ^ 53)" by auto
    then have "x / 2 powi (j - 52) = real_of_int (k div 2)"
      using j by (auto simp add: x_def)
    then show ?thesis by blast
  qed
  then obtain m where m: "x / 2 powi (j - 52) = real_of_int m" by blast
  have "fl x = real_of_int (roundEven (x / quantum x)) * quantum x"
    using pos by (simp add: fl_def)
  also have "\<dots> = real_of_int m * 2 powi (j - 52)"
    by (simp add: q m roundEven_of_int)
  also have "\<dots> = x / 2 powi (j - 52) * 2 powi (j - 52)" by (simp add: m)
  also have "\<dots> = x" by simp
  finally show ?thesis by (simp add: x_def)
qed

lemma fl_numeral [simp]: "numeral n \<le> (2::int) ^ 53 \<Longrightarrow> fl (numeral n) = numeral n"
  using fl_of_int [of "numeral n"] by simp

lemma fl_1 [simp]: "fl 1 = 1"
  using fl_of_int [of 1] by simp

lemma fl_neg_numeral [simp]: "numeral n \<le> (2::int) ^ 53 \<Longrightarrow> fl (- numeral n) = - numeral n"
  using fl_of_int [of "- numeral n"] by simp

lemma scoreLoop_append:
  "scoreLoop (xs @ ys) xs 0 0 0 = (length xs, length ys)"
proof -
  have c: "{j. j < length (xs @ ys) \<and> j < length xs \<and> (xs @ ys) ! j = xs ! j} = {..<length xs}"
    by (auto simp add: nth_append)
  have n: "{j. j < length (xs @ ys) \<and> \<not> (j < length xs \<and> (xs @ ys) ! j = xs ! j)}
             = {length xs..<length xs + length ys}"
    by (auto simp add: nth_append)
  show ?thesis unfolding scoreLoop_card c n by simp
qed

section \<open>Rounding error of the accuracy and of the speed\<close>

lemma accuracy64_scaled_error:
  assumes ct: "c \<le> t" and t: "0 < t"
  shows "\<bar>fl (fl (fl (real c / real t) * 100) * 100) - real c / real t * 10000\<bar> \<le> 1 / 10 ^ 11"
proof -
  define x0 where "x0 = real c / real t"
  define r1 where "r1 = fl x0"
  define a where "a = fl (r1 * 100)"
  define b where "b = fl (a * 100)"
  have x0: "0 \<le> x0" "x0 \<le> 1"
    using ct t by (simp_all add: x0_def)
  have r1: "x0 - 1 / 2 ^ 53 \<le> r1" "r1 \<le> x0 + 1 / 2 ^ 53"
    using fl_bounds [of x0 0] x0 by (simp_all add: r1_def power_int_minus_divide)
  have a: "r1 * 100 - 1 / 2 ^ 47 \<le> a" "a \<le> r1 * 100 + 1 / 2 ^ 47"
    using fl_bounds [of "r1 * 100" 6] x0 r1 by (simp_all add: a_def power_int_minus_divide)
  have b: "a * 100 - 1 / 2 ^ 40 \<le> b" "b \<le> a * 100 + 1 / 2 ^ 40"
    using fl_bounds [of "a * 100" 13] x0 r1 a by (simp_all add: b_def power_int_minus_divide)
  have up: "b - x0 * 10000 \<le> 1 / 10 ^ 11"
    using r1(2) a(2) b(2) by simp
  have lo: "- (1 / 10 ^ 11) \<le> b - x0 * 10000"
    using r1(1) a(1) b(1) by simp
  have "\<bar>b - x0 * 10000\<bar> \<le> 1 / 10 ^ 11"
    using up lo by (simp only: abs_le_iff) simp
  then show ?thesis by (simp add: b_def a_def r1_def x0_def)
qed

lemma fl_rel_bounds:
  assumes "2 powi (- 1022) \<le> x"
  shows "x * (1 - 1 / 2 ^ 53) \<le> fl x" and "fl x \<le> x * (1 + 1 / 2 ^ 53)"
proof -
  have pos: "0 < x" using assms zero_less_power_int [of "2::real" "- 1022"] by linarith
  have "\<bar>fl x - x\<bar> \<le> \<bar>x\<bar> / 2 ^ 53" using assms pos by (intro fl_rel_error) simp
  then have "\<bar>fl x - x\<bar> \<le> x / 2 ^ 53" using pos by simp
  then have "x - x / 2 ^ 53 \<le> fl x" "fl x \<le> x + x / 2 ^ 53"
    by (simp_all only: abs_le_iff) linarith+
  then show "x * (1 - 1 / 2 ^ 53) \<le> fl x" and "fl x \<le> x * (1 + 1 / 2 ^ 53)"
    by (simp_all add: algebra_simps)
qed

lemma quotient64_error:
  assumes n: "real n \<le> 2 ^ 53" and e: "1 / 1024 \<le> e" "e \<le> 2 ^ 53"
  shows "\<bar>fl (fl (real n / 5) / fl (e / 60)) - (real n / 5) / (e / 60)\<bar>
           \<le> (real n / 5) / (e / 60) / 2 ^ 50"
proof (cases "n = 0")
  case True
  then show ?thesis by (simp add: fl_0)
next
  case False
  define u :: real where "u = 1 / 2 ^ 53"
  define A where "A = real n / 5"
  define B where "B = e / 60"
  define w where "w = fl A"
  define m where "m = fl B"
  define Q where "Q = w / m"
  have u: "0 < u" "u < 1" by (simp_all add: u_def)
  have A: "1 / 5 \<le> A" "A \<le> 2 ^ 53" using False n by (simp_all add: A_def)
  have B: "1 / 61440 \<le> B" "B \<le> 2 ^ 53" using e by (simp_all add: B_def)
  have Apos: "0 < A" and Bpos: "0 < B" using A B by linarith+
  have "(2::real) powi (- 1022) \<le> 1 / 61440" by (simp add: power_int_minus_divide)
  then have An: "2 powi (- 1022) \<le> A" and Bn: "2 powi (- 1022) \<le> B" using A B by linarith+
  have w: "A * (1 - u) \<le> w" "w \<le> A * (1 + u)"
    unfolding w_def u_def using fl_rel_bounds [OF An] by simp_all
  have m: "B * (1 - u) \<le> m" "m \<le> B * (1 + u)"
    unfolding m_def u_def using fl_rel_bounds [OF Bn] by simp_all
  have mlow: "0 < B * (1 - u)" using Bpos u by simp
  have mpos: "0 < m" using m(1) mlow by linarith
  have wpos: "0 \<le> A * (1 - u)" using Apos u by simp
  have Qup: "Q \<le> A * (1 + u) / (B * (1 - u))"
    unfolding Q_def using w(2) m(1) mlow wpos w(1) by (intro frac_le) linarith+
  have Qlo: "A * (1 - u) / (B * (1 + u)) \<le> Q"
    unfolding Q_def using w(1) m(2) mpos wpos by (intro frac_le) linarith+
  have "1 / 2 ^ 60 \<le> A * (1 - u) / (B * (1 + u))"
  proof -
    have "1 / 10 \<le> A * (1 - u)"
    proof -
      have "1 / 5 * (1 - u) \<le> A * (1 - u)" using A(1) u by (intro mult_right_mono) simp_all
      moreover have "1 / 10 \<le> 1 / 5 * (1 - u)" by (simp add: u_def)
      ultimately show ?thesis by linarith
    qed
    moreover have "B * (1 + u) \<le> 2 ^ 54"
    proof -
      have "B * (1 + u) \<le> 2 ^ 53 * (1 + u)" using B(2) u by (intro mult_right_mono) simp_all
      moreover have "2 ^ 53 * (1 + u) \<le> 2 ^ 54" by (simp add: u_def)
      ultimately show ?thesis by linarith
    qed
    moreover have "0 < B * (1 + u)" using Bpos u by simp
    ultimately have "(1 / 10) / 2 ^ 54 \<le> A * (1 - u) / (B * (1 + u))"
      by (intro frac_le) simp_all
    then show ?thesis by simp
  qed
  with Qlo have Qbig: "1 / 2 ^ 60 \<le> Q" by linarith
  have "(2::real) powi (- 1022) \<le> 1 / 2 ^ 60" by (simp add: power_int_minus_divide)
  with Qbig have Qn: "2 powi (- 1022) \<le> Q" by linarith
  define q where "q = fl Q"
  have q: "Q * (1 - u) \<le> q" "q \<le> Q * (1 + u)"
    unfolding q_def u_def using fl_rel_bounds [OF Qn] by simp_all
  define R where "R = A / B"
  have Rpos: "0 < R" using Apos Bpos by (simp add: R_def)
  have c1: "(1 + u) * (1 + u) / (1 - u) \<le> 1 + 8 * u" by (simp add: u_def)
  have c2: "1 - 8 * u \<le> (1 - u) * (1 - u) / (1 + u)" by (simp add: u_def)
  have "q \<le> A * (1 + u) / (B * (1 - u)) * (1 + u)"
  proof -
    have "Q * (1 + u) \<le> A * (1 + u) / (B * (1 - u)) * (1 + u)"
      using Qup u by (intro mult_right_mono) simp_all
    with q(2) show ?thesis by linarith
  qed
  also have "A * (1 + u) / (B * (1 - u)) * (1 + u) = R * ((1 + u) * (1 + u) / (1 - u))"
    by (simp add: R_def)
  also have "\<dots> \<le> R * (1 + 8 * u)"
    using c1 Rpos by (intro mult_left_mono) simp_all
  finally have up: "q - R \<le> R * (8 * u)" by (simp add: algebra_simps)
  have "R * (1 - 8 * u) \<le> R * ((1 - u) * (1 - u) / (1 + u))"
    using c2 Rpos by (intro mult_left_mono) simp_all
  also have "R * ((1 - u) * (1 - u) / (1 + u)) = A * (1 - u) / (B * (1 + u)) * (1 - u)"
    by (simp add: R_def)
  also have "\<dots> \<le> Q * (1 - u)"
    using Qlo u by (intro mult_right_mono) simp_all
  also have "\<dots> \<le> q" by (rule q(1))
  finally have lo: "- (R * (8 * u)) \<le> q - R" by (simp add: algebra_simps)
  have "\<bar>q - R\<bar> \<le> R * (8 * u)" using up lo by (auto simp add: abs_le_iff)
  moreover have "R * (8 * u) = R / 2 ^ 50" by (simp add: u_def)
  ultimately show ?thesis
    by (simp add: q_def Q_def w_def m_def R_def A_def B_def)
qed

section \<open>The double-precision functions return a result\<close>

lemma finite64_Some: "finite64 x = Some y \<Longrightarrow> y = x"
  by (simp add: finite64_def split: if_splits)

lemma div64_Some: "div64 a b = Some y \<Longrightarrow> y = fl (a / b) \<and> b \<noteq> 0"
  by (auto simp add: div64_def dest: finite64_Some split: if_splits)

lemma mul64_Some: "mul64 a b = Some y \<Longrightarrow> y = fl (a * b)"
  by (auto simp add: mul64_def dest: finite64_Some)

lemma sub64_Some: "sub64 a b = Some y \<Longrightarrow> y = fl (a - b)"
  by (auto simp add: sub64_def dest: finite64_Some)

lemma roundedAccuracy64_Some:
  assumes "roundedAccuracy64 c t = Some acc"
  shows "acc = (if t = 0 then 0
                else fl (real_of_int (round (fl (fl (fl (real c / real t) * 100) * 100))) / 100))"
proof (cases "t = 0")
  case True
  with assms have "div64 (real_of_int (round (fl (0 * 100)))) 100 = Some acc"
    by (auto simp add: roundedAccuracy64_def accuracyOf64_def dest!: mul64_Some
        split: Option.bind_splits)
  then show ?thesis using True by (auto dest!: div64_Some simp add: fl_0)
next
  case False
  with assms show ?thesis
    by (auto simp add: roundedAccuracy64_def accuracyOf64_def
        dest!: mul64_Some div64_Some split: Option.bind_splits)
qed

lemma calculateStats64_Some:
  assumes "calculateStats64 input src e h = Some st"
  shows "correctChars st = fst (scoreLoop input src 0 0 0)"
    and "incorrectChars st = snd (scoreLoop input src 0 0 0)"
    and "totalChars st = length input"
    and "roundedAccuracy64 (correctChars st) (totalChars st) = Some (accuracy st)"
    and "grossWpm64 (length input) e = Some (rawWpm st)"
    and "netWpm64 (length input) (incorrectChars st) e = Some (TypingStats.wpm st)"
  using assms
  by (auto simp add: calculateStats64_def Let_def split: prod.splits Option.bind_splits)

lemma sampleOf64_Some:
  "sampleOf64 e v = Some x \<Longrightarrow>
   x = \<lparr>time = \<lfloor>e\<rfloor>, WpmHistory.wpm = round (fl (fl (real (length v) / 5) / fl (e / 60)))\<rparr>"
  by (auto simp add: sampleOf64_def dest!: div64_Some split: Option.bind_splits)

lemma handleInputChange64_wpmHistory:
  assumes "testState s = Active" "handleInputChange64 now v s = Some s'" "elapsedOf64 s = Some e"
  shows "wpmHistory s' =
     (if sampleDue64 s e
      then wpmHistory s @
             [\<lparr>time = \<lfloor>e\<rfloor>, WpmHistory.wpm = round (fl (fl (real (length v) / 5) / fl (e / 60)))\<rparr>]
      else wpmHistory s)"
  using assms
  by (auto simp add: handleInputChange64_def Let_def clearIntervalRef_def
      dest!: sampleOf64_Some split: Option.bind_splits if_splits option.splits)

lemma elapsedOf64_Some:
  "elapsedOf64 s = Some e \<Longrightarrow>
   e = fl (fl (real_of_int (currentTime s) - real_of_int (startTime s)) / 1000)"
  by (auto simp add: elapsedOf64_def dest!: div64_Some sub64_Some split: Option.bind_splits)

lemma grossWpm64_Some:
  "grossWpm64 n e = Some g \<Longrightarrow>
   g = (if 0 < fl (e / 60) then round (fl (fl (real n / 5) / fl (e / 60))) else 0)"
  by (auto simp add: grossWpm64_def wordsTyped64_def timeInMinutes64_def
      dest!: div64_Some split: Option.bind_splits if_splits)

lemma netWpm64_Some:
  "netWpm64 n i e = Some net \<Longrightarrow> grossWpm64 n e = Some g \<Longrightarrow>
   net = (if 0 < fl (e / 60)
          then max 0 (round (fl (real_of_int g - fl (real i / fl (e / 60))))) else 0)"
  by (auto simp add: netWpm64_def errorsPerMinute64_def timeInMinutes64_def grossWpm64_def
      wordsTyped64_def fl_0
      dest!: div64_Some sub64_Some split: Option.bind_splits if_splits)

lemma timeInMinutes_pos:
  assumes "2 powi (- 1016) \<le> e"
  shows "0 < fl (e / 60)"
proof -
  have "(2::real) powi (- 1022) = 2 powi (- 1016) / 64"
    by (simp add: power_int_minus_divide)
  also have "\<dots> \<le> e / 60" using assms zero_less_power_int [of "2::real" "- 1016"]
    by (simp add: field_simps del: zero_less_power_int)
  finally show ?thesis by (rule fl_pos)
qed

text \<open>
  No infinity and no NaN arises for a typed text of at most \<open>2 ^ 53\<close> characters and an
  elapsed time that is 0, negative or between 1/1024 and \<open>2 ^ 53\<close> seconds; every
  elapsed time \<open>handleInputChange64\<close> computes from a clock difference of at most
  \<open>2 ^ 53\<close> milliseconds is such.
\<close>

lemma finite64_I: "\<bar>x\<bar> < 2 ^ 1024 \<Longrightarrow> finite64 x = Some x"
  by (simp add: finite64_def)

lemma fl_abs_le:
  assumes "\<bar>x\<bar> \<le> 2 ^ n" "n \<le> 1000"
  shows "\<bar>fl x\<bar> \<le> 2 ^ (n + 1)"
proof -
  have "\<bar>x\<bar> < 2 powi (int n + 1)"
  proof -
    have "(2::real) ^ n < 2 ^ (n + 1)" by simp
    with assms(1) have "\<bar>x\<bar> < 2 ^ (n + 1)" by linarith
    then show ?thesis by (simp add: power_int_add)
  qed
  then have "\<bar>fl x - x\<bar> \<le> 2 powi (int n - 53)" by (rule fl_error) simp
  also have "(2::real) powi (int n - 53) \<le> 2 powi (int n)"
    by (intro power_int_increasing) simp_all
  finally have "\<bar>fl x - x\<bar> \<le> 2 ^ n" by simp
  then show ?thesis using assms(1) by simp
qed

lemma fl_finite:
  assumes "\<bar>x\<bar> \<le> 2 ^ n" "n \<le> 1000"
  shows "finite64 (fl x) = Some (fl x)"
proof -
  have "\<bar>fl x\<bar> \<le> 2 ^ (n + 1)" using assms by (rule fl_abs_le)
  also have "(2::real) ^ (n + 1) < 2 ^ 1024"
    using assms(2) by (intro power_strict_increasing) simp_all
  finally show ?thesis by (rule finite64_I)
qed

lemma roundedAccuracy64_total:
  assumes "c \<le> t"
  shows "\<exists>acc. roundedAccuracy64 c t = Some acc"
proof (cases "t = 0")
  case True
  then show ?thesis
    by (simp add: roundedAccuracy64_def accuracyOf64_def mul64_def div64_def finite64_def fl_0)
next
  case False
  define x0 where "x0 = real c / real t"
  define r1 where "r1 = fl x0"
  define a where "a = fl (r1 * 100)"
  define b where "b = fl (a * 100)"
  define kk where "kk = round b"
  have x0: "\<bar>x0\<bar> \<le> 2 ^ 0" using assms False by (simp add: x0_def)
  have r1: "\<bar>r1\<bar> \<le> 2 ^ 1" using fl_abs_le [OF x0] by (simp add: r1_def)
  then have "\<bar>r1 * 100\<bar> \<le> 2 ^ 8" by (simp add: abs_mult)
  then have a: "\<bar>a\<bar> \<le> 2 ^ 9" using fl_abs_le [of "r1 * 100" 8] by (simp add: a_def)
  then have "\<bar>a * 100\<bar> \<le> 2 ^ 16" by (simp add: abs_mult)
  then have b: "\<bar>b\<bar> \<le> 2 ^ 17" using fl_abs_le [of "a * 100" 16] by (simp add: b_def)
  have "\<bar>real_of_int kk - b\<bar> \<le> 1 / 2" unfolding kk_def by (rule of_int_round_abs_le)
  with b have "\<bar>real_of_int kk\<bar> \<le> 2 ^ 17 + 1 / 2" by linarith
  then have "\<bar>real_of_int kk / 100\<bar> \<le> 2 ^ 17" by simp
  then have k: "finite64 (fl (real_of_int kk / 100)) = Some (fl (real_of_int kk / 100))"
    by (rule fl_finite) simp
  have f1: "finite64 r1 = Some r1" using r1 by (intro finite64_I) simp
  have f2: "finite64 a = Some a" using a by (intro finite64_I) simp
  have f3: "finite64 b = Some b" using b by (intro finite64_I) simp
  show ?thesis
    using False f1 f2 f3 k
    by (simp add: roundedAccuracy64_def accuracyOf64_def mul64_def div64_def
        x0_def r1_def a_def b_def kk_def)
qed

lemma timeInMinutes_lower:
  assumes "1 / 1024 \<le> e"
  shows "1 / 2 ^ 16 \<le> fl (e / 60)"
proof -
  have pos: "0 < e / 60" using assms by simp
  have "(2::real) powi (- 1022) \<le> 1 / 61440"
    by (simp add: power_int_minus_divide)
  also have "\<dots> \<le> e / 60" using assms by simp
  finally have n: "2 powi (- 1022) \<le> \<bar>e / 60\<bar>" using pos by simp
  have "\<bar>fl (e / 60) - e / 60\<bar> \<le> \<bar>e / 60\<bar> / 2 ^ 53" using n by (rule fl_rel_error)
  then have "e / 60 - e / 60 / 2 ^ 53 \<le> fl (e / 60)"
    using pos by (simp only: abs_le_iff abs_of_pos) linarith
  moreover have "1 / 2 ^ 16 \<le> e / 60 - e / 60 / 2 ^ 53" using assms by simp
  ultimately show ?thesis by linarith
qed

lemma wpm64_total:
  assumes n: "real n \<le> 2 ^ 53" and inc: "inc \<le> n"
    and e: "(- (2 ^ 53) \<le> e \<and> e \<le> 0) \<or> (1 / 1024 \<le> e \<and> e \<le> 2 ^ 53)"
  shows "\<exists>g net. grossWpm64 n e = Some g \<and> netWpm64 n inc e = Some net"
proof -
  define w where "w = fl (real n / 5)"
  define m where "m = fl (e / 60)"
  have n5: "\<bar>real n / 5\<bar> \<le> 2 ^ 53" using n by simp
  have w: "\<bar>w\<bar> \<le> 2 ^ 54" unfolding w_def using fl_abs_le [OF n5] by simp
  have fw: "finite64 w = Some w" unfolding w_def using n5 by (rule fl_finite) simp
  have "\<bar>e / 60\<bar> \<le> 2 ^ 53" using e by auto
  then have fm: "finite64 m = Some m"
    unfolding m_def by (rule fl_finite) simp
  have wt: "wordsTyped64 n = Some w" by (simp add: wordsTyped64_def div64_def fw [unfolded w_def] w_def)
  have tm: "timeInMinutes64 e = Some m" by (simp add: timeInMinutes64_def div64_def fm [unfolded m_def] m_def)
  show ?thesis
  proof (cases "0 < m")
    case False
    then show ?thesis
      by (simp add: grossWpm64_def netWpm64_def errorsPerMinute64_def wt tm sub64_def
          finite64_def fl_0)
  next
    case True
    have "\<not> e \<le> 0" using True fl_nonpos [of "e / 60"] by (auto simp add: m_def)
    with e have e1: "1 / 1024 \<le> e" by auto
    have mlow: "1 / 2 ^ 16 \<le> m" unfolding m_def using e1 by (rule timeInMinutes_lower)
    have inv: "1 / m \<le> 2 ^ 16" using mlow True by (simp add: field_simps)
    have "\<bar>w / m\<bar> = \<bar>w\<bar> * (1 / m)" using True by (simp add: abs_mult)
    also have "\<dots> \<le> 2 ^ 54 * 2 ^ 16" using w inv True by (intro mult_mono) simp_all
    finally have q: "\<bar>w / m\<bar> \<le> 2 ^ 70" by simp
    have fq: "finite64 (fl (w / m)) = Some (fl (w / m))" using q by (rule fl_finite) simp
    have qa: "\<bar>fl (w / m)\<bar> \<le> 2 ^ 71" using fl_abs_le [OF q] by simp
    define g where "g = round (fl (w / m))"
    have "\<bar>real_of_int g - fl (w / m)\<bar> \<le> 1 / 2" unfolding g_def by (rule of_int_round_abs_le)
    with qa have ga: "\<bar>real_of_int g\<bar> \<le> 2 ^ 71 + 1 / 2" by linarith
    have gross: "grossWpm64 n e = Some g"
      using True by (simp add: grossWpm64_def wt tm div64_def fq g_def)
    have "\<bar>real inc / m\<bar> = real inc * (1 / m)" using True by simp
    also have "\<dots> \<le> 2 ^ 53 * 2 ^ 16" using n inc inv True by (intro mult_mono) simp_all
    finally have p: "\<bar>real inc / m\<bar> \<le> 2 ^ 69" by simp
    have fp: "finite64 (fl (real inc / m)) = Some (fl (real inc / m))"
      using p by (rule fl_finite) simp
    have pa: "\<bar>fl (real inc / m)\<bar> \<le> 2 ^ 70" using fl_abs_le [OF p] by simp
    have "\<bar>real_of_int g - fl (real inc / m)\<bar> \<le> 2 ^ 72" using ga pa by simp
    then have fd: "finite64 (fl (real_of_int g - fl (real inc / m)))
                     = Some (fl (real_of_int g - fl (real inc / m)))"
      by (rule fl_finite) simp
    have errs: "errorsPerMinute64 inc e = Some (fl (real inc / m))"
      using True by (simp add: errorsPerMinute64_def tm div64_def fp)
    have "\<exists>net. netWpm64 n inc e = Some net"
      by (simp add: netWpm64_def gross errs sub64_def fd)
    with gross show ?thesis by blast
  qed
qed

lemma calculateStats64_total:
  assumes n: "real (length input) \<le> 2 ^ 53"
    and e: "(- (2 ^ 53) \<le> e \<and> e \<le> 0) \<or> (1 / 1024 \<le> e \<and> e \<le> 2 ^ 53)"
  shows "\<exists>st. calculateStats64 input src e h = Some st"
proof -
  obtain c i where ci: "scoreLoop input src 0 0 0 = (c, i)"
    by (cases "scoreLoop input src 0 0 0")
  then have sum: "c + i = length input" by (rule scoreLoop_sum)
  obtain g net where gn: "grossWpm64 (length input) e = Some g"
      "netWpm64 (length input) i e = Some net"
    using wpm64_total [OF n _ e, of i] sum by auto
  obtain acc where acc: "roundedAccuracy64 c (length input) = Some acc"
    using roundedAccuracy64_total [of c "length input"] sum by auto
  show ?thesis by (simp add: calculateStats64_def Let_def ci gn acc)
qed

lemma elapsedOf64_range:
  assumes "\<bar>currentTime s - startTime s\<bar> \<le> 2 ^ 53"
  shows "\<exists>e. elapsedOf64 s = Some e \<and>
           ((- (2 ^ 53) \<le> e \<and> e \<le> 0) \<or> (1 / 1024 \<le> e \<and> e \<le> 2 ^ 53))"
proof -
  define d where "d = currentTime s - startTime s"
  have dr: "\<bar>real_of_int d\<bar> \<le> 2 ^ 53"
    using assms unfolding d_def by (metis of_int_abs of_int_le_iff of_int_numeral of_int_power)
  have fd: "fl (real_of_int d) = real_of_int d" using assms by (intro fl_of_int) (simp add: d_def)
  have sub: "sub64 (real_of_int (currentTime s)) (real_of_int (startTime s)) = Some (real_of_int d)"
    using fd dr by (simp add: sub64_def finite64_def d_def)
  define e where "e = fl (real_of_int d / 1000)"
  have x: "\<bar>real_of_int d / 1000\<bar> \<le> 2 ^ 44" using dr by simp
  have fe: "finite64 e = Some e" unfolding e_def using x by (rule fl_finite) simp
  have el: "elapsedOf64 s = Some e"
    by (simp add: elapsedOf64_def sub div64_def fe [unfolded e_def] e_def)
  have ea: "\<bar>e\<bar> \<le> 2 ^ 45" unfolding e_def using fl_abs_le [OF x] by simp
  have "(- (2 ^ 53) \<le> e \<and> e \<le> 0) \<or> (1 / 1024 \<le> e \<and> e \<le> 2 ^ 53)"
  proof (cases "d \<le> 0")
    case True
    then have "e \<le> 0" unfolding e_def by (intro fl_nonpos) simp
    then show ?thesis using ea by simp
  next
    case False
    then have d1: "1 \<le> real_of_int d" by simp
    have "(2::real) powi (- 1022) \<le> 1 / 1000" by (simp add: power_int_minus_divide)
    also have "\<dots> \<le> real_of_int d / 1000" using d1 by simp
    finally have n: "2 powi (- 1022) \<le> \<bar>real_of_int d / 1000\<bar>" using d1 by simp
    have "\<bar>e - real_of_int d / 1000\<bar> \<le> \<bar>real_of_int d / 1000\<bar> / 2 ^ 53"
      unfolding e_def using n by (rule fl_rel_error)
    then have "real_of_int d / 1000 - real_of_int d / 1000 / 2 ^ 53 \<le> e"
      using d1 by (simp only: abs_le_iff) (simp add: abs_if split: if_splits)
    moreover have "1 / 1024 \<le> real_of_int d / 1000 - real_of_int d / 1000 / 2 ^ 53"
      using d1 by simp
    ultimately have "1 / 1024 \<le> e" by linarith
    then show ?thesis using ea by simp
  qed
  with el show ?thesis by blast
qed

lemma sampleOf64_total:
  assumes n: "real (length v) \<le> 2 ^ 53" and e: "1 / 1024 \<le> e" "e \<le> 2 ^ 53"
  shows "\<exists>x. sampleOf64 e v = Some x"
proof -
  obtain g where g: "grossWpm64 (length v) e = Some g"
    using wpm64_total [OF n, of 0 e] e by auto
  have m: "0 < fl (e / 60)" using timeInMinutes_lower [OF e(1)] by (simp add: field_simps)
  from g m show ?thesis
    by (auto simp add: grossWpm64_def sampleOf64_def wordsTyped64_def timeInMinutes64_def
        dest: div64_Some split: Option.bind_splits if_splits)
qed

lemma handleInputChange64_total:
  assumes d: "\<bar>currentTime s - startTime s\<bar> \<le> 2 ^ 53" and n: "real (length v) \<le> 2 ^ 53"
  shows "\<exists>s'. handleInputChange64 now v s = Some s'"
proof (cases "testState s = Active")
  case False
  then show ?thesis by (simp add: handleInputChange64_def)
next
  case True
  obtain e where el: "elapsedOf64 s = Some e"
    and r: "(- (2 ^ 53) \<le> e \<and> e \<le> 0) \<or> (1 / 1024 \<le> e \<and> e \<le> 2 ^ 53)"
    using elapsedOf64_range [OF d] by blast
  obtain st where st: "calculateStats64 v (testText s) e (wpmHistory s) = Some st"
    using calculateStats64_total [OF n r] by blast
  show ?thesis
  proof (cases "sampleDue64 s e")
    case False
    with True el st show ?thesis by (simp add: handleInputChange64_def Let_def)
  next
    case due: True
    then have "0 < e" by (simp add: sampleDue64_def)
    with r have "1 / 1024 \<le> e" "e \<le> 2 ^ 53" by auto
    then obtain x where "sampleOf64 e v = Some x" using sampleOf64_total [OF n] by blast
    with True el st due show ?thesis by (simp add: handleInputChange64_def Let_def)
  qed
qed

text \<open>
  The invariant of the statistics (the counters add up, accuracy and consistency lie
  between 0 and 100) holds in double arithmetic as it does in exact arithmetic: rounding
  to a double never crosses an integer below \<open>2 ^ 53\<close>.
\<close>

lemma roundEven_le_int: "y \<le> real_of_int M \<Longrightarrow> roundEven y \<le> M"
proof -
  assume y: "y \<le> real_of_int M"
  then have f: "\<lfloor>y\<rfloor> \<le> M" by (simp add: floor_le_iff)
  show ?thesis
  proof (cases "\<lfloor>y\<rfloor> = M")
    case True
    then have "real_of_int M \<le> y" using of_int_floor_le [of y] by simp
    with y have "y = real_of_int M" by simp
    then show ?thesis by (simp add: roundEven_of_int)
  next
    case False
    with f have "\<lfloor>y\<rfloor> + 1 \<le> M" by simp
    then show ?thesis by (auto simp add: roundEven_def Let_def)
  qed
qed

lemma fl_le_int:
  assumes x: "0 \<le> x" "x \<le> real_of_int k" and k: "k \<le> 2 ^ 53"
  shows "fl x \<le> real_of_int k"
proof (cases "x = 0")
  case True
  then show ?thesis using x by (simp add: fl_def)
next
  case False
  with x have pos: "0 < x" by simp
  have kr: "real_of_int k \<le> 2 ^ 53"
    using k by (metis of_int_le_iff of_int_numeral of_int_power)
  define j where "j = \<lfloor>log 2 x\<rfloor>"
  have b: "2 powi j \<le> x" "x < 2 powi (j + 1)"
    using floor_log2_bounds [OF pos] by (simp_all add: j_def)
  have "(2::real) powi j \<le> 2 powi 53" using b(1) x(2) kr by simp
  then have j53: "j \<le> 53"
    using power_int_strict_increasing [of 53 j "2::real"] by (cases "j \<le> 53") auto
  show ?thesis
  proof (cases "j = 53")
    case True
    with b(1) x(2) kr have "x = real_of_int k" "real_of_int k = 2 ^ 53" by simp_all
    then have "k = 2 ^ 53" by (metis of_int_eq_iff of_int_numeral of_int_power)
    then have "fl (real_of_int k) = real_of_int k" by (intro fl_of_int) simp
    with \<open>x = real_of_int k\<close> show ?thesis by simp
  next
    case False
    define i where "i = max j (- 1022) - 52"
    have i0: "i \<le> 0" using False j53 by (simp add: i_def)
    have q: "quantum x = 2 powi i"
      using pos by (simp add: quantum_def j_def i_def)
    have qi: "(2::real) powi i = 1 / 2 ^ nat (- i)"
      using i0 by (simp add: power_int_def inverse_eq_divide power_one_over)
    have "real_of_int k / 2 powi i = real_of_int (k * 2 ^ nat (- i))"
      by (simp add: qi)
    moreover have "x / 2 powi i \<le> real_of_int k / 2 powi i"
      using x(2) by (intro divide_right_mono) simp_all
    ultimately have "roundEven (x / 2 powi i) \<le> k * 2 ^ nat (- i)"
      by (intro roundEven_le_int) simp
    then have "real_of_int (roundEven (x / 2 powi i)) \<le> real_of_int (k * 2 ^ nat (- i))"
      by (simp only: of_int_le_iff)
    then have "real_of_int (roundEven (x / 2 powi i)) * 2 powi i
                 \<le> real_of_int (k * 2 ^ nat (- i)) * 2 powi i"
      by (intro mult_right_mono) simp_all
    also have "\<dots> = real_of_int k" by (simp add: qi)
    finally show ?thesis using pos by (simp add: fl_def q)
  qed
qed

lemma roundedAccuracy64_bounds:
  assumes some: "roundedAccuracy64 c t = Some acc" and ct: "c \<le> t"
  shows "0 \<le> acc \<and> acc \<le> 100"
proof (cases "t = 0")
  case True
  then show ?thesis using roundedAccuracy64_Some [OF some] by simp
next
  case False
  define r1 where "r1 = fl (real c / real t)"
  define a where "a = fl (r1 * 100)"
  define b where "b = fl (a * 100)"
  define kk where "kk = round b"
  have acc: "acc = fl (real_of_int kk / 100)"
    using roundedAccuracy64_Some [OF some] False by (simp add: kk_def b_def a_def r1_def)
  have "0 \<le> real c / real t" "real c / real t \<le> real_of_int 1" using ct False by simp_all
  then have r1: "0 \<le> r1" "r1 \<le> 1"
    unfolding r1_def using fl_nonneg fl_le_int [of "real c / real t" 1] by simp_all
  then have "0 \<le> r1 * 100" "r1 * 100 \<le> real_of_int 100" by simp_all
  then have a: "0 \<le> a" "a \<le> 100"
    unfolding a_def using fl_nonneg fl_le_int [of "r1 * 100" 100] by simp_all
  then have "0 \<le> a * 100" "a * 100 \<le> real_of_int 10000" by simp_all
  then have b: "0 \<le> b" "b \<le> real_of_int 10000"
    unfolding b_def using fl_nonneg fl_le_int [of "a * 100" 10000] by simp_all
  have kk: "0 \<le> kk" "kk \<le> 10000"
    unfolding kk_def using round_bounds [OF b] by simp_all
  then have "0 \<le> real_of_int kk / 100" "real_of_int kk / 100 \<le> real_of_int 100" by simp_all
  then show ?thesis
    unfolding acc using fl_nonneg fl_le_int [of "real_of_int kk / 100" 100] by simp
qed

lemma calculateStats64_invariant:
  assumes "calculateStats64 input src e h = Some st"
  shows "correctChars st + incorrectChars st = totalChars st"
    and "0 \<le> accuracy st \<and> accuracy st \<le> 100"
    and "0 \<le> consistency st \<and> consistency st \<le> 100"
proof -
  note f = calculateStats64_Some [OF assms]
  show sum: "correctChars st + incorrectChars st = totalChars st"
    using scoreLoop_sum [of input src "correctChars st" "incorrectChars st"] f(1,2,3) by simp
  then have "correctChars st \<le> totalChars st" by simp
  with f(4) show "0 \<le> accuracy st \<and> accuracy st \<le> 100"
    by (rule roundedAccuracy64_bounds)
  have "consistency st = round (consistencyOf h)"
    using assms
    by (auto simp add: calculateStats64_def Let_def split: prod.splits Option.bind_splits)
  moreover have "0 \<le> consistencyOf h \<and> consistencyOf h \<le> of_int 100"
    using consistencyOf_bounds [of h] by simp
  ultimately show "0 \<le> consistency st \<and> consistency st \<le> 100"
    using round_bounds [of "consistencyOf h" 100] by simp
qed

section \<open>Doubles at the inputs of the examples\<close>

lemma abx_round: "round (fl (fl (fl (2 / 3) * 100) * 100)) = 6667"
proof -
  define b where "b = fl (fl (fl (2 / 3) * 100) * 100)"
  have "\<bar>fl (fl (fl (real 2 / real 3) * 100) * 100) - real 2 / real 3 * 10000\<bar> \<le> 1 / 10 ^ 11"
    by (rule accuracy64_scaled_error) simp_all
  then have "\<bar>b - 20000 / 3\<bar> \<le> 1 / 10 ^ 11" by (simp add: b_def)
  then have "b - 20000 / 3 \<le> 1 / 10 ^ 11" "- (1 / 10 ^ 11) \<le> b - 20000 / 3"
    by (simp_all only: abs_le_iff) simp_all
  then have "\<bar>b - real_of_int 6667\<bar> < 1 / 2"
    by (simp only: abs_less_iff) simp
  then show ?thesis unfolding b_def by (rule round_unique')
qed

lemma tie_r1: "fl (23 / 160) = 2589569785738035 / 18014398509481984"
  using fl_eval [of "- 3" "23 / 160"] by (simp add: roundEven_def Let_def)

lemma tie_a: "fl (64739244643450875 / 4503599627370496) = 8092405580431359 / 562949953421312"
  using fl_eval [of 3 "64739244643450875 / 4503599627370496"]
  by (simp add: roundEven_def Let_def)

lemma tie_b: "fl (202310139510783975 / 140737488355328) = 6322191859711999 / 4398046511104"
  using fl_eval [of 10 "202310139510783975 / 140737488355328"]
  by (simp add: roundEven_def Let_def)

lemma tie_round: "round (fl (fl (fl (23 / 160) * 100) * 100)) = 1437"
  by (simp add: tie_r1 tie_a tie_b round_def)

lemma fl_1437_1438: "fl (1437 / 100) < fl (1438 / 100)"
  using fl_bounds [of "1437 / 100" 3] fl_bounds [of "1438 / 100" 3]
  by (simp add: power_int_minus_divide)

lemma tie_stats:
  "calculateStats64 (replicate 23 CHR ''a'' @ replicate 137 CHR ''b'') (replicate 23 CHR ''a'') 60 []
     = Some \<lparr>TypingStats.wpm = 0, rawWpm = 32, accuracy = fl (1437 / 100), correctChars = 23,
             incorrectChars = 137, totalChars = 160, timeElapsed = 60, consistency = 100\<rparr>"
proof -
  have sc: "scoreLoop (replicate 23 CHR ''a'' @ replicate 137 CHR ''b'') (replicate 23 CHR ''a'') 0 0 0
              = (23, 137)"
    using scoreLoop_append [of "replicate 23 CHR ''a''" "replicate 137 CHR ''b''"] by simp
  have fin: "\<bar>fl (1437 / 100)\<bar> < 2 ^ 1024"
    using fl_bounds [of "1437 / 100" 3] by (simp add: power_int_minus_divide abs_less_iff)
  have acc: "roundedAccuracy64 23 160 = Some (fl (1437 / 100))"
    using fin tie_round
    by (simp add: roundedAccuracy64_def accuracyOf64_def div64_def mul64_def finite64_def
        tie_r1 tie_a tie_b)
  have gross: "grossWpm64 160 60 = Some 32"
    by (simp add: grossWpm64_def wordsTyped64_def timeInMinutes64_def div64_def finite64_def)
  have net: "netWpm64 160 137 60 = Some 0"
    by (simp add: netWpm64_def gross errorsPerMinute64_def timeInMinutes64_def div64_def
        sub64_def finite64_def)
  show ?thesis
    by (simp add: calculateStats64_def Let_def sc acc gross net consistencyOf_def)
qed

lemma e48: "fl (24 / 5) = 5404319552844595 / 1125899906842624"
  using fl_eval [of 2 "24 / 5"] by (simp add: roundEven_def Let_def)

lemma w23: "fl (23 / 5) = 2589569785738035 / 562949953421312"
  using fl_eval [of 2 "23 / 5"] by (simp add: roundEven_def Let_def)

lemma m48: "fl (1080863910568919 / 13510798882111488) = 5764607523034235 / 72057594037927936"
  using fl_eval [of "- 4" "1080863910568919 / 13510798882111488"]
  by (simp add: roundEven_def Let_def)

lemma q48: "fl (66292986514893696 / 1152921504606847) = 8092405580431359 / 140737488355328"
  using fl_eval [of 5 "66292986514893696 / 1152921504606847"]
  by (simp add: roundEven_def Let_def)

lemma gross48: "grossWpm64 23 (5404319552844595 / 1125899906842624) = Some 57"
  by (simp add: grossWpm64_def wordsTyped64_def timeInMinutes64_def div64_def finite64_def
      w23 m48 q48 round_def)

lemma fl_half: "fl (1 / 2) = 1 / 2"
  using fl_eval [of "- 1" "1 / 2"] by (simp add: roundEven_def Let_def)

lemma w35: "fl (3 / 5) = 5404319552844595 / 9007199254740992"
  using fl_eval [of "- 1" "3 / 5"] by (simp add: roundEven_def Let_def)

lemma w35': "fl (5404319552844595 / 9007199254740992) = 5404319552844595 / 9007199254740992"
  using fl_eval [of "- 1" "5404319552844595 / 9007199254740992"]
  by (simp add: roundEven_def Let_def)

lemma abx_stats:
  "calculateStats64 ''abx'' ''abc'' 60 h
     = Some \<lparr>TypingStats.wpm = 0, rawWpm = 1, accuracy = fl (6667 / 100), correctChars = 2,
             incorrectChars = 1, totalChars = 3, timeElapsed = 60,
             consistency = round (consistencyOf h)\<rparr>"
proof -
  have sc: "scoreLoop ''abx'' ''abc'' 0 0 0 = (2, 1)"
    by (simp add: scoreLoop.simps)
  obtain acc where acc: "roundedAccuracy64 2 3 = Some acc"
    using roundedAccuracy64_total [of 2 3] by auto
  have "acc = fl (6667 / 100)"
    using roundedAccuracy64_Some [OF acc] abx_round by simp
  with acc have acc': "roundedAccuracy64 2 3 = Some (fl (6667 / 100))" by simp
  have gross: "grossWpm64 3 60 = Some 1"
    by (simp add: grossWpm64_def wordsTyped64_def timeInMinutes64_def div64_def finite64_def
        w35 w35' round_def)
  have net: "netWpm64 3 (Suc 0) 60 = Some 0"
    by (simp add: netWpm64_def gross errorsPerMinute64_def timeInMinutes64_def div64_def
        sub64_def finite64_def fl_0)
  have len: "length ''abx'' = 3" by simp
  show ?thesis
    unfolding calculateStats64_def Let_def sc len by (simp add: acc' gross net)
qed

lemma v23: "length ''the quick brown fox jum'' = 23"
  by simp

lemma tie48_stats:
  "calculateStats64 ''the quick brown fox jum'' ''the quick brown fox jum'' (fl (24 / 5)) []
     = Some \<lparr>TypingStats.wpm = 57, rawWpm = 57, accuracy = 100, correctChars = 23,
             incorrectChars = 0, totalChars = 23, timeElapsed = fl (24 / 5), consistency = 100\<rparr>"
proof -
  have sc: "scoreLoop ''the quick brown fox jum'' ''the quick brown fox jum'' 0 0 0 = (23, 0)"
    using scoreLoop_append [of "''the quick brown fox jum''" "[]"] by simp
  have gross: "grossWpm64 23 (fl (24 / 5)) = Some 57"
    using gross48 by (simp add: e48)
  have m: "0 < fl (fl (24 / 5) / 60)" by (simp add: e48 m48)
  have net: "netWpm64 23 0 (fl (24 / 5)) = Some 57"
    using m
    by (simp add: netWpm64_def gross48 errorsPerMinute64_def timeInMinutes64_def div64_def
        sub64_def finite64_def fl_0 e48 m48)
  have acc: "roundedAccuracy64 23 23 = Some 100"
    by (simp add: roundedAccuracy64_def accuracyOf64_def div64_def mul64_def finite64_def)
  show ?thesis
    unfolding calculateStats64_def Let_def sc v23 by (simp add: acc gross net consistencyOf_def)
qed

lemma state48:
  "testState (tick 4800 (startTest ''the quick brown fox jum'' 0 0 initialState)) = Active"
  "wpmHistory (tick 4800 (startTest ''the quick brown fox jum'' 0 0 initialState)) = []"
  "testText (tick 4800 (startTest ''the quick brown fox jum'' 0 0 initialState))
     = ''the quick brown fox jum''"
  "elapsedOf64 (tick 4800 (startTest ''the quick brown fox jum'' 0 0 initialState))
     = Some (fl (24 / 5))"
  by (simp_all add: tick_def startTest_def setIntervalRef_def initialState_def elapsedOf64_def
      sub64_def div64_def finite64_def e48)

lemma sample48:
  "sampleOf64 (fl (24 / 5)) ''the quick brown fox jum'' = Some \<lparr>time = 4, WpmHistory.wpm = 57\<rparr>"
  by (simp add: sampleOf64_def div64_def finite64_def e48 w23 m48 q48 round_def)

lemma fl_30: "fl (1 / 30) = 4803839602528529 / 144115188075855872"
  using fl_eval [of "- 5" "1 / 30"] by (simp add: roundEven_def Let_def)

lemma fl_q30: "fl (288230376151711744 / 4803839602528529) = 60"
  using fl_eval [of 5 "288230376151711744 / 4803839602528529"]
  by (simp add: roundEven_def Let_def)

lemma fl_25: "fl (2 / 5) = 3602879701896397 / 9007199254740992"
  using fl_eval [of "- 2" "2 / 5"] by (simp add: roundEven_def Let_def)

lemma fl_120: "fl (1 / 120) = 4803839602528529 / 576460752303423488"
  using fl_eval [of "- 7" "1 / 120"] by (simp add: roundEven_def Let_def)

lemma fl_q120: "fl (230584300921369408 / 4803839602528529) = 48"
  using fl_eval [of 5 "230584300921369408 / 4803839602528529"]
  by (simp add: roundEven_def Let_def)

lemma half_second:
  "testState (tick 500 (startTest ''abc'' 0 0 initialState)) = Active"
  "wpmHistory (tick 500 (startTest ''abc'' 0 0 initialState)) = []"
  "elapsedOf64 (tick 500 (startTest ''abc'' 0 0 initialState)) = Some (1 / 2)"
  by (simp_all add: tick_def startTest_def setIntervalRef_def initialState_def elapsedOf64_def
      sub64_def div64_def finite64_def fl_half)

lemma half_second_sample:
  "map_option wpmHistory
     (handleInputChange64 0 ''ab'' (tick 500 (startTest ''abc'' 0 0 initialState)))
     = Some [\<lparr>time = 0, WpmHistory.wpm = 48\<rparr>]"
proof -
  let ?s = "tick 500 (startTest ''abc'' 0 0 initialState)"
  have "\<bar>currentTime ?s - startTime ?s\<bar> \<le> 2 ^ 53"
    by (simp add: tick_def startTest_def setIntervalRef_def)
  then obtain s' where s': "handleInputChange64 0 ''ab'' ?s = Some s'"
    using handleInputChange64_total [of ?s "''ab''" 0] by auto
  have due: "sampleDue64 ?s (1 / 2)"
    by (simp add: sampleDue64_def half_second lastTime_def)
  have "wpmHistory s' = [\<lparr>time = 0, WpmHistory.wpm = 48\<rparr>]"
    using handleInputChange64_wpmHistory [OF half_second(1) s' half_second(3)] due
    by (simp add: half_second fl_25 fl_120 fl_q120)
  with s' show ?thesis by simp
qed

section \<open>The claims\<close>

text \<open>
  C1, as stated, has the accuracy equal to correct / total * 100 rounded to two decimal
  places. The program computes the quotient and the two products in doubles: for 23
  correct characters of 160 the exact value 14.375 rounds to 14.38, the doubles give
  1437.4999999999998 before the rounding, and the accuracy returned is 14.37.
\<close>

theorem C1_scoring_counterexample:
  "calculateStats64 (replicate 23 CHR ''a'' @ replicate 137 CHR ''b'') (replicate 23 CHR ''a'') 60 []
     = Some \<lparr>TypingStats.wpm = 0, rawWpm = 32, accuracy = fl (1437 / 100), correctChars = 23,
             incorrectChars = 137, totalChars = 160, timeElapsed = 60, consistency = 100\<rparr> \<and>
   real_of_int (round (23 / 160 * 100 * 100 :: real)) / 100 = 1438 / 100 \<and>
   fl (1437 / 100) < fl (1438 / 100)"
  using tie_stats fl_1437_1438 by (simp add: round_def)

text \<open>
  C1, amended: whenever \<open>calculateStats64\<close> returns statistics (it does for every typed
  text of at most \<open>2 ^ 53\<close> characters and every elapsed time that is 0, negative or
  between 1/1024 and \<open>2 ^ 53\<close> seconds), position \<open>i\<close> of the typed text counts as correct exactly when \<open>i\<close> is below
  the length of the source text and the two characters at \<open>i\<close> are equal, and as incorrect
  otherwise; the total is the length of the typed text; the accuracy is 0 when the total
  is 0 and otherwise \<open>Math.round(((correct / total) * 100) * 100) / 100\<close> with every
  division and multiplication rounded to the nearest double. That value is within
  0.005 + \<open>10 ^ -13\<close> of correct / total * 100. For the source text "abc", the typed text
  "abx" and 60 seconds the result is 2 correct, 1 incorrect and the double 66.67.
\<close>

theorem C1_scoring:
  "(calculateStats64 input src e h = Some st \<longrightarrow>
      correctChars st = card {i. i < length input \<and> i < length src \<and> input ! i = src ! i} \<and>
      incorrectChars st =
        card {i. i < length input \<and> \<not> (i < length src \<and> input ! i = src ! i)} \<and>
      totalChars st = length input \<and>
      accuracy st =
        (if totalChars st = 0 then 0
         else fl (real_of_int (round (fl (fl (fl
                (real (correctChars st) / real (totalChars st)) * 100) * 100))) / 100)) \<and>
      \<bar>accuracy st - real (correctChars st) / real (totalChars st) * 100\<bar>
        \<le> 1 / 200 + 1 / 10 ^ 13) \<and>
   (real (length input) \<le> 2 ^ 53 \<and>
    ((- (2 ^ 53) \<le> e \<and> e \<le> 0) \<or> (1 / 1024 \<le> e \<and> e \<le> 2 ^ 53)) \<longrightarrow>
      calculateStats64 input src e h \<noteq> None) \<and>
   calculateStats64 ''abx'' ''abc'' 60 h
     = Some \<lparr>TypingStats.wpm = 0, rawWpm = 1, accuracy = fl (6667 / 100), correctChars = 2,
             incorrectChars = 1, totalChars = 3, timeElapsed = 60,
             consistency = round (consistencyOf h)\<rparr>"
proof -
  have main: "correctChars st = card {i. i < length input \<and> i < length src \<and> input ! i = src ! i} \<and>
      incorrectChars st =
        card {i. i < length input \<and> \<not> (i < length src \<and> input ! i = src ! i)} \<and>
      totalChars st = length input \<and>
      accuracy st =
        (if totalChars st = 0 then 0
         else fl (real_of_int (round (fl (fl (fl
                (real (correctChars st) / real (totalChars st)) * 100) * 100))) / 100)) \<and>
      \<bar>accuracy st - real (correctChars st) / real (totalChars st) * 100\<bar>
        \<le> 1 / 200 + 1 / 10 ^ 13"
    if some: "calculateStats64 input src e h = Some st"
  proof -
    note f = calculateStats64_Some [OF some]
    have sum: "correctChars st + incorrectChars st = totalChars st"
      using scoreLoop_sum [of input src "correctChars st" "incorrectChars st"] f(1,2,3) by simp
    have acc: "accuracy st =
        (if totalChars st = 0 then 0
         else fl (real_of_int (round (fl (fl (fl
                (real (correctChars st) / real (totalChars st)) * 100) * 100))) / 100))"
      using f(4) by (rule roundedAccuracy64_Some)
    have err: "\<bar>accuracy st - real (correctChars st) / real (totalChars st) * 100\<bar>
        \<le> 1 / 200 + 1 / 10 ^ 13"
    proof (cases "totalChars st = 0")
      case True
      then show ?thesis using acc by simp
    next
      case False
      then show ?thesis
        using accuracy64_error [of "correctChars st" "totalChars st"] sum acc by simp
    qed
    show ?thesis using f(1,2,3) acc err by (simp add: scoreLoop_card)
  qed
  have tot: "calculateStats64 input src e h \<noteq> None"
    if "real (length input) \<le> 2 ^ 53 \<and>
        ((- (2 ^ 53) \<le> e \<and> e \<le> 0) \<or> (1 / 1024 \<le> e \<and> e \<le> 2 ^ 53))"
    using calculateStats64_total [of input e src h] that by auto
  from main tot abx_stats [of h] show ?thesis by blast
qed

theorem C1_scoring_witness:
  "calculateStats64 ''abx'' ''abc'' 60 [] \<noteq> None \<and>
   map_option correctChars (calculateStats64 ''abx'' ''abc'' 60 []) = Some 2 \<and>
   map_option incorrectChars (calculateStats64 ''abx'' ''abc'' 60 []) = Some 1 \<and>
   map_option accuracy (calculateStats64 ''abx'' ''abc'' 60 []) = Some (fl (6667 / 100)) \<and>
   \<bar>fl (6667 / 100) - 200 / 3\<bar> \<le> 1 / 200 + 1 / 10 ^ 13"
proof -
  let ?st = "\<lparr>TypingStats.wpm = 0, rawWpm = 1, accuracy = fl (6667 / 100), correctChars = 2,
             incorrectChars = 1, totalChars = 3, timeElapsed = 60,
             consistency = round (consistencyOf [])\<rparr>"
  note t = C1_scoring [of "''abx''" "''abc''" 60 "[]" ?st]
  have dom: "real (length ''abx'') \<le> 2 ^ 53 \<and>
             ((- (2 ^ 53) \<le> (60::real) \<and> (60::real) \<le> 0) \<or>
              (1 / 1024 \<le> (60::real) \<and> (60::real) \<le> 2 ^ 53))"
    by simp
  with t have ex: "calculateStats64 ''abx'' ''abc'' 60 [] \<noteq> None" by blast
  from t have some: "calculateStats64 ''abx'' ''abc'' 60 [] = Some ?st" by blast
  with t have "\<bar>accuracy ?st - real (correctChars ?st) / real (totalChars ?st) * 100\<bar>
        \<le> 1 / 200 + 1 / 10 ^ 13" by blast
  then have "\<bar>fl (6667 / 100) - 200 / 3\<bar> \<le> 1 / 200 + 1 / 10 ^ 13" by simp
  with some ex show ?thesis by simp
qed

text \<open>
  C2: after an input update of an active session the test is completed exactly when, in
  quote mode, the typed text is as long as the source text; in timed mode, the elapsed
  seconds have reached the target time; in word-count mode, the number of pieces that
  splitting the typed text at every single space gives has reached the target word count.
  That number is one more than the number of spaces, so with the target 3 both "a b c" and
  "a  b" (two spaces, an empty piece between them) complete the test.
\<close>

theorem C2_completion:
  "testState s = Active \<Longrightarrow>
   (testState (handleInputChange now v s) = Completed \<longleftrightarrow>
      (case testMode s of
         Quote \<Rightarrow> length v = length (testText s)
       | Time \<Rightarrow> real_of_int (targetTime s) \<le> real_of_int (currentTime s - startTime s) / 1000
       | Words \<Rightarrow> targetWords s \<le> int (length (splitOn CHR '' '' v)))) \<and>
   length (splitOn CHR '' '' v) = Suc (length (filter (\<lambda>x. x = CHR '' '') v)) \<and>
   splitOn CHR '' '' ''a b c'' = [''a'', ''b'', ''c''] \<and>
   splitOn CHR '' '' ''a  b'' = [''a'', '''', ''b''] \<and>
   (testMode s = Words \<and> targetWords s = 3 \<longrightarrow>
      testState (handleInputChange now ''a b c'' s) = Completed \<and>
      testState (handleInputChange now ''a  b'' s) = Completed)"
  by (simp add: handleInputChange_testState isCompleted_def elapsedOf_def length_splitOn
      split: TestMode.splits)

theorem C2_completion_witness:
  "testState (initialState\<lparr>testState := Active, testMode := Words, targetWords := 3\<rparr>) = Active \<and>
   testState (handleInputChange 0 ''a  b''
      (initialState\<lparr>testState := Active, testMode := Words, targetWords := 3\<rparr>)) = Completed \<and>
   testState (handleInputChange 0 ''a b''
      (initialState\<lparr>testState := Active, testMode := Words, targetWords := 3\<rparr>)) \<noteq> Completed"
proof -
  let ?s = "initialState\<lparr>testState := Active, testMode := Words, targetWords := 3\<rparr>"
  have a: "testState ?s = Active" by simp
  have w: "testMode ?s = Words \<and> targetWords ?s = 3" by simp
  have c: "testState (handleInputChange 0 ''a  b'' ?s) = Completed"
    using C2_completion [OF a, of 0 "''a  b''"] w by blast
  have "testState (handleInputChange 0 ''a b'' ?s) = Completed \<longleftrightarrow>
          targetWords ?s \<le> int (length (splitOn CHR '' '' ''a b''))"
    using C2_completion [OF a, of 0 "''a b''"] w by simp
  then have n: "testState (handleInputChange 0 ''a b'' ?s) \<noteq> Completed"
    by simp
  from a c n show ?thesis by blast
qed

text \<open>
  C3: for every typed text, source text, elapsed time and sample list, the statistics
  that \<open>calculateStats\<close> returns satisfy correct + incorrect = total, the accuracy lies
  between 0 and 100, and the consistency lies between 0 and 100.
\<close>

theorem C3_invariant:
  "correctChars (calculateStats input src e h) + incorrectChars (calculateStats input src e h)
     = totalChars (calculateStats input src e h) \<and>
   0 \<le> accuracy (calculateStats input src e h) \<and>
   accuracy (calculateStats input src e h) \<le> 100 \<and>
   0 \<le> consistency (calculateStats input src e h) \<and>
   consistency (calculateStats input src e h) \<le> 100"
proof -
  obtain c n where cn: "scoreLoop input src 0 0 0 = (c, n)"
    by (cases "scoreLoop input src 0 0 0")
  then have total: "c + n = length input" by (rule scoreLoop_sum)
  then have "c \<le> length input" by simp
  then have "0 \<le> accuracyOf c (length input) * 100 \<and>
             accuracyOf c (length input) * 100 \<le> of_int 10000"
    using accuracyOf_bounds [of c "length input"] by simp
  then have r: "0 \<le> round (accuracyOf c (length input) * 100) \<and>
             round (accuracyOf c (length input) * 100) \<le> 10000"
    using round_bounds [of "accuracyOf c (length input) * 100" 10000] by blast
  have acc: "accuracy (calculateStats input src e h)
               = real_of_int (round (accuracyOf c (length input) * 100)) / 100"
    by (simp add: calculateStats_def cn Let_def)
  have a: "0 \<le> accuracy (calculateStats input src e h) \<and>
           accuracy (calculateStats input src e h) \<le> 100"
    unfolding acc using r by simp
  have "0 \<le> consistencyOf h \<and> consistencyOf h \<le> of_int 100"
    using consistencyOf_bounds [of h] by simp
  then have k: "0 \<le> round (consistencyOf h) \<and> round (consistencyOf h) \<le> 100"
    using round_bounds [of "consistencyOf h" 100] by blast
  have cons: "consistency (calculateStats input src e h) = round (consistencyOf h)"
    by (simp add: calculateStats_def cn Let_def)
  have s: "correctChars (calculateStats input src e h) + incorrectChars (calculateStats input src e h)
     = totalChars (calculateStats input src e h)"
    by (simp add: calculateStats_def cn Let_def total)
  from s a k show ?thesis unfolding cons by blast
qed

text \<open>
  C4, as stated, has the raw speed equal to the exact quotient (length / 5) / (elapsed / 60)
  rounded to the nearest integer. The program divides in doubles: 23 characters after
  4800 milliseconds give the double 57.49999999999999 and the raw speed 57, where the
  exact quotient, at 4.8 and at the double nearest to 4.8 alike, rounds to 58.
\<close>

theorem C4_wpm_counterexample:
  "calculateStats64 ''the quick brown fox jum'' ''the quick brown fox jum'' (fl (24 / 5)) []
     = Some \<lparr>TypingStats.wpm = 57, rawWpm = 57, accuracy = 100, correctChars = 23,
             incorrectChars = 0, totalChars = 23, timeElapsed = fl (24 / 5), consistency = 100\<rparr> \<and>
   0 < fl (24 / 5) \<and>
   round ((real (length ''the quick brown fox jum'') / 5) / (fl (24 / 5) / 60)) = 58 \<and>
   round ((real (length ''the quick brown fox jum'') / 5) / ((24 / 5) / 60) :: real) = 58"
  using tie48_stats by (simp add: e48 round_def)

text \<open>
  C4, amended: whenever \<open>calculateStats64\<close> returns statistics and the elapsed time
  divided by 60 is a positive double (it is for every elapsed time from \<open>2 powi (- 1016)\<close>
  on), the raw speed is \<open>Math.round((length / 5) / (elapsed / 60))\<close> and the net speed is
  \<open>Math.max(0, Math.round(raw - incorrect / (elapsed / 60)))\<close>, every division and the
  subtraction rounded to the nearest double. For an elapsed time between 1/1024 and
  \<open>2 ^ 53\<close> seconds the double quotient is within a relative \<open>2 ^ -50\<close> of the exact
  quotient. At the elapsed time 0 the raw speed, the error rate and the net speed are 0.
  A typed text of length 25 after 30 seconds is 5 words and has the raw speed 10.
\<close>

theorem C4_wpm:
  "(calculateStats64 input src e h = Some st \<longrightarrow>
      (0 < fl (e / 60) \<longrightarrow>
         rawWpm st = round (fl (fl (real (length input) / 5) / fl (e / 60))) \<and>
         TypingStats.wpm st =
           max 0 (round (fl (real_of_int (rawWpm st)
                             - fl (real (incorrectChars st) / fl (e / 60)))))) \<and>
      (e = 0 \<longrightarrow> rawWpm st = 0 \<and> TypingStats.wpm st = 0) \<and>
      (length input = 25 \<and> e = 30 \<longrightarrow> rawWpm st = 10)) \<and>
   (2 powi (- 1016) \<le> e \<longrightarrow> 0 < fl (e / 60)) \<and>
   (real (length input) \<le> 2 ^ 53 \<and> 1 / 1024 \<le> e \<and> e \<le> 2 ^ 53 \<longrightarrow>
      \<bar>fl (fl (real (length input) / 5) / fl (e / 60)) - (real (length input) / 5) / (e / 60)\<bar>
        \<le> (real (length input) / 5) / (e / 60) / 2 ^ 50) \<and>
   errorsPerMinute64 incorrectN 0 = Some 0 \<and>
   wordsTyped64 25 = Some 5 \<and>
   (length input = 25 \<longrightarrow> calculateStats64 input src 30 h \<noteq> None)"
proof -
  have main: "(0 < fl (e / 60) \<longrightarrow>
         rawWpm st = round (fl (fl (real (length input) / 5) / fl (e / 60))) \<and>
         TypingStats.wpm st =
           max 0 (round (fl (real_of_int (rawWpm st)
                             - fl (real (incorrectChars st) / fl (e / 60)))))) \<and>
      (e = 0 \<longrightarrow> rawWpm st = 0 \<and> TypingStats.wpm st = 0) \<and>
      (length input = 25 \<and> e = 30 \<longrightarrow> rawWpm st = 10)"
    if some: "calculateStats64 input src e h = Some st"
  proof -
    note f = calculateStats64_Some [OF some]
    note g = grossWpm64_Some [OF f(5)]
    note n = netWpm64_Some [OF f(6) f(5)]
    have ex: "rawWpm st = 10" if "length input = 25 \<and> e = 30"
      using g that by (simp add: fl_half)
    show ?thesis using g n ex by (auto simp add: fl_0)
  qed
  have z: "errorsPerMinute64 incorrectN 0 = Some 0"
    by (simp add: errorsPerMinute64_def timeInMinutes64_def div64_def finite64_def fl_0)
  have w: "wordsTyped64 25 = Some 5"
    by (simp add: wordsTyped64_def div64_def finite64_def)
  have tot: "calculateStats64 input src 30 h \<noteq> None" if "length input = 25"
    using calculateStats64_total [of input 30 src h] that by auto
  have bnd: "\<bar>fl (fl (real (length input) / 5) / fl (e / 60)) - (real (length input) / 5) / (e / 60)\<bar>
        \<le> (real (length input) / 5) / (e / 60) / 2 ^ 50"
    if "real (length input) \<le> 2 ^ 53 \<and> 1 / 1024 \<le> e \<and> e \<le> 2 ^ 53"
    using quotient64_error [of "length input" e] that by blast
  from main timeInMinutes_pos [of e] bnd z w tot show ?thesis by blast
qed

theorem C4_wpm_witness:
  "calculateStats64 ''the quick brown fox jumps'' ''the quick brown fox jumps'' 30 [] \<noteq> None \<and>
   map_option rawWpm
     (calculateStats64 ''the quick brown fox jumps'' ''the quick brown fox jumps'' 30 []) = Some 10 \<and>
   0 < fl (30 / 60) \<and> 2 powi (- 1016) \<le> (30::real) \<and> wordsTyped64 25 = Some 5 \<and>
   \<bar>fl (fl (25 / 5) / fl (30 / 60)) - 10\<bar> \<le> 10 / 2 ^ 50 \<and>
   calculateStats64 ''abx'' ''abc'' 0 [] \<noteq> None \<and>
   map_option rawWpm (calculateStats64 ''abx'' ''abc'' 0 []) = Some 0 \<and>
   map_option TypingStats.wpm (calculateStats64 ''abx'' ''abc'' 0 []) = Some 0"
proof -
  have len: "length ''the quick brown fox jumps'' = 25" by simp
  note t = C4_wpm [of "''the quick brown fox jumps''" "''the quick brown fox jumps''" 30 "[]"]
  have some: "calculateStats64 ''the quick brown fox jumps'' ''the quick brown fox jumps'' 30 [] \<noteq> None"
    using t len by blast
  then obtain st where st:
    "calculateStats64 ''the quick brown fox jumps'' ''the quick brown fox jumps'' 30 [] = Some st"
    by auto
  have e: "2 powi (- 1016) \<le> (30::real)"
    by (simp add: power_int_minus_divide)
  have r: "rawWpm st = 10 \<and> 0 < fl (30 / 60) \<and> wordsTyped64 25 = Some 5"
    using t [of st] st len e by blast
  have dom: "real (length ''the quick brown fox jumps'') \<le> 2 ^ 53 \<and>
             1 / 1024 \<le> (30::real) \<and> (30::real) \<le> 2 ^ 53"
    by simp
  with t [of st] have
    "\<bar>fl (fl (real (length ''the quick brown fox jumps'') / 5) / fl (30 / 60))
         - (real (length ''the quick brown fox jumps'') / 5) / (30 / 60)\<bar>
        \<le> (real (length ''the quick brown fox jumps'') / 5) / (30 / 60) / 2 ^ 50"
    by blast
  then have b: "\<bar>fl (fl (25 / 5) / fl (30 / 60)) - 10\<bar> \<le> 10 / 2 ^ 50"
    by (simp only: len) simp
  have "calculateStats64 ''abx'' ''abc'' 0 [] \<noteq> None"
    using calculateStats64_total [of "''abx''" 0 "''abc''" "[]"] by simp
  then obtain z where z: "calculateStats64 ''abx'' ''abc'' 0 [] = Some z" by auto
  have "rawWpm z = 0 \<and> TypingStats.wpm z = 0"
    using C4_wpm [of "''abx''" "''abc''" 0 "[]" z] z by blast
  with z st r e b show ?thesis by simp
qed





text \<open>
  C7, as stated, asks for a sample only when the floor of the elapsed seconds is a
  positive even integer, and records the exact quotient rounded. The source tests
  \<open>timeElapsed > 0\<close>, not the floor: half a second after the start, with no sample yet, a
  sample with time 0 is appended. And it divides in doubles: 23 characters after 4800
  milliseconds are recorded as 57, where the exact quotient rounds to 58.
\<close>

theorem C7_sampling_counterexample:
  "testState (tick 500 (startTest ''abc'' 0 0 initialState)) = Active \<and>
   wpmHistory (tick 500 (startTest ''abc'' 0 0 initialState)) = [] \<and>
   elapsedOf64 (tick 500 (startTest ''abc'' 0 0 initialState)) = Some (1 / 2) \<and>
   map_option wpmHistory
     (handleInputChange64 0 ''ab'' (tick 500 (startTest ''abc'' 0 0 initialState)))
     = Some [\<lparr>time = 0, WpmHistory.wpm = 48\<rparr>] \<and>
   testState (tick 4800 (startTest ''the quick brown fox jum'' 0 0 initialState)) = Active \<and>
   elapsedOf64 (tick 4800 (startTest ''the quick brown fox jum'' 0 0 initialState))
     = Some (fl (24 / 5)) \<and>
   map_option wpmHistory
     (handleInputChange64 0 ''the quick brown fox jum''
        (tick 4800 (startTest ''the quick brown fox jum'' 0 0 initialState)))
     = Some [\<lparr>time = 4, WpmHistory.wpm = 57\<rparr>] \<and>
   round ((real (length ''the quick brown fox jum'') / 5) / (fl (24 / 5) / 60)) = 58 \<and>
   round ((real (length ''the quick brown fox jum'') / 5) / ((4800 / 1000) / 60) :: real) = 58"
proof -
  let ?s = "tick 4800 (startTest ''the quick brown fox jum'' 0 0 initialState)"
  have due: "sampleDue64 ?s (fl (24 / 5))"
    by (simp add: sampleDue64_def state48 lastTime_def) (simp add: e48)
  have "map_option wpmHistory (handleInputChange64 0 ''the quick brown fox jum'' ?s)
          = Some [\<lparr>time = 4, WpmHistory.wpm = 57\<rparr>]"
    unfolding handleInputChange64_def
    by (simp add: state48 due sample48 tie48_stats Let_def clearIntervalRef_def
        split: option.splits)
  moreover have "round ((real (length ''the quick brown fox jum'') / 5) / (fl (24 / 5) / 60)) = 58"
    by (simp add: e48 round_def)
  moreover have
    "round ((real (length ''the quick brown fox jum'') / 5) / ((4800 / 1000) / 60) :: real) = 58"
    by (simp add: round_def)
  ultimately show ?thesis using state48 half_second half_second_sample by simp
qed

text \<open>
  C7, amended: on an input update of an active session (\<open>handleInputChange64\<close> returns a
  state whenever the clock difference and the length of the input are at most \<open>2 ^ 53\<close>)
  a sample is appended exactly when the elapsed seconds are above 0, their floor is even
  (0 included) and either no sample is recorded yet or the floor differs from the time of
  the last sample; the sample is the floor together with
  \<open>Math.round((length / 5) / (elapsed / 60))\<close>, both divisions rounded to the nearest
  double. For an elapsed time between 1/1024 and \<open>2 ^ 53\<close> seconds the double quotient is
  within a relative \<open>2 ^ -50\<close> of the exact quotient.
\<close>

theorem C7_sampling:
  "testState s = Active \<Longrightarrow>
   (handleInputChange64 now v s = Some s' \<and> elapsedOf64 s = Some e \<longrightarrow>
      e = fl (fl (real_of_int (currentTime s) - real_of_int (startTime s)) / 1000) \<and>
      wpmHistory s' =
        (if 0 < e \<and> even \<lfloor>e\<rfloor> \<and>
            (wpmHistory s = [] \<or> time (last (wpmHistory s)) \<noteq> \<lfloor>e\<rfloor>)
         then wpmHistory s @
                [\<lparr>time = \<lfloor>e\<rfloor>,
                  WpmHistory.wpm = round (fl (fl (real (length v) / 5) / fl (e / 60)))\<rparr>]
         else wpmHistory s)) \<and>
   (\<bar>currentTime s - startTime s\<bar> \<le> 2 ^ 53 \<and> real (length v) \<le> 2 ^ 53 \<longrightarrow>
      handleInputChange64 now v s \<noteq> None \<and> elapsedOf64 s \<noteq> None) \<and>
   (real (length v) \<le> 2 ^ 53 \<and> 1 / 1024 \<le> e \<and> e \<le> 2 ^ 53 \<longrightarrow>
      \<bar>fl (fl (real (length v) / 5) / fl (e / 60)) - (real (length v) / 5) / (e / 60)\<bar>
        \<le> (real (length v) / 5) / (e / 60) / 2 ^ 50)"
proof -
  assume a: "testState s = Active"
  have main: "e = fl (fl (real_of_int (currentTime s) - real_of_int (startTime s)) / 1000) \<and>
      wpmHistory s' =
        (if 0 < e \<and> even \<lfloor>e\<rfloor> \<and>
            (wpmHistory s = [] \<or> time (last (wpmHistory s)) \<noteq> \<lfloor>e\<rfloor>)
         then wpmHistory s @
                [\<lparr>time = \<lfloor>e\<rfloor>,
                  WpmHistory.wpm = round (fl (fl (real (length v) / 5) / fl (e / 60)))\<rparr>]
         else wpmHistory s)"
    if "handleInputChange64 now v s = Some s' \<and> elapsedOf64 s = Some e"
    using handleInputChange64_wpmHistory [of s now v s' e] elapsedOf64_Some [of s e] a that
    by (auto simp add: sampleDue64_def lastTime_def even_iff_mod_2_eq_zero)
  have tot: "handleInputChange64 now v s \<noteq> None \<and> elapsedOf64 s \<noteq> None"
    if "\<bar>currentTime s - startTime s\<bar> \<le> 2 ^ 53 \<and> real (length v) \<le> 2 ^ 53"
    using handleInputChange64_total [of s v now] elapsedOf64_range [of s] that by auto
  have bnd: "\<bar>fl (fl (real (length v) / 5) / fl (e / 60)) - (real (length v) / 5) / (e / 60)\<bar>
        \<le> (real (length v) / 5) / (e / 60) / 2 ^ 50"
    if "real (length v) \<le> 2 ^ 53 \<and> 1 / 1024 \<le> e \<and> e \<le> 2 ^ 53"
    using quotient64_error [of "length v" e] that by blast
  from main tot bnd show ?thesis by blast
qed

theorem C7_sampling_witness:
  "testState (tick 2000 (startTest ''abcdefghijk'' 0 0 initialState)) = Active \<and>
   elapsedOf64 (tick 2000 (startTest ''abcdefghijk'' 0 0 initialState)) = Some 2 \<and>
   map_option wpmHistory
     (handleInputChange64 0 ''abcdefghij'' (tick 2000 (startTest ''abcdefghijk'' 0 0 initialState)))
     = Some [\<lparr>time = 2, WpmHistory.wpm = 60\<rparr>] \<and>
   \<bar>fl (fl (10 / 5) / fl (2 / 60)) - 60\<bar> \<le> 60 / 2 ^ 50"
proof -
  let ?s = "tick 2000 (startTest ''abcdefghijk'' 0 0 initialState)"
  have a: "testState ?s = Active"
    by (simp add: tick_def startTest_def setIntervalRef_def)
  have e: "elapsedOf64 ?s = Some 2"
    by (simp add: tick_def startTest_def setIntervalRef_def initialState_def elapsedOf64_def
        sub64_def div64_def finite64_def)
  have h: "wpmHistory ?s = []"
    by (simp add: tick_def startTest_def setIntervalRef_def)
  have d: "\<bar>currentTime ?s - startTime ?s\<bar> \<le> 2 ^ 53 \<and> real (length ''abcdefghij'') \<le> 2 ^ 53"
    by (simp add: tick_def startTest_def setIntervalRef_def)
  from C7_sampling [OF a, of 0 "''abcdefghij''"] d
  have "handleInputChange64 0 ''abcdefghij'' ?s \<noteq> None" by blast
  then obtain s' where s': "handleInputChange64 0 ''abcdefghij'' ?s = Some s'" by auto
  from C7_sampling [OF a, of 0 "''abcdefghij''" s' 2] s' e
  have "wpmHistory s' = [\<lparr>time = 2, WpmHistory.wpm = 60\<rparr>]"
    by (simp add: h fl_30 fl_q30)
  moreover have len: "length ''abcdefghij'' = 10" by simp
  have dom: "real (length ''abcdefghij'') \<le> 2 ^ 53 \<and> 1 / 1024 \<le> (2::real) \<and> (2::real) \<le> 2 ^ 53"
    by simp
  with C7_sampling [OF a, of 0 "''abcdefghij''" s' 2] have
    "\<bar>fl (fl (real (length ''abcdefghij'') / 5) / fl (2 / 60)) - (real (length ''abcdefghij'') / 5) / (2 / 60)\<bar>
        \<le> (real (length ''abcdefghij'') / 5) / (2 / 60) / 2 ^ 50"
    by blast
  then have "\<bar>fl (fl (10 / 5) / fl (2 / 60)) - 60\<bar> \<le> 60 / 2 ^ 50"
    by (simp only: len) simp
  ultimately show ?thesis using a e s' by simp
qed

text \<open>
  C8, as stated, says that the accuracy is 100 only if every typed character matches.
  The accuracy is rounded to two decimal places, so one wrong character among 30000 still
  gives 100.
\<close>

theorem C8_accuracy_100_counterexample:
  "accuracy (calculateStats (replicate 29999 CHR ''a'' @ ''b'') (replicate 30000 CHR ''a'') 60 [])
     = 100 \<and>
   29999 < length (replicate 29999 CHR ''a'' @ ''b'') \<and>
   (replicate 29999 CHR ''a'' @ ''b'') ! 29999 \<noteq> replicate 30000 CHR ''a'' ! 29999"
proof -
  obtain c n where cn:
    "scoreLoop (replicate 29999 CHR ''a'' @ ''b'') (replicate (Suc 29999) CHR ''a'') 0 0 0 = (c, n)"
    by (cases "scoreLoop (replicate 29999 CHR ''a'' @ ''b'') (replicate (Suc 29999) CHR ''a'') 0 0 0")
  then have n: "n = 1" by (rule one_wrong_at_end) simp
  have s: "Suc 29999 = 30000" by simp
  have "accuracy (calculateStats (replicate 29999 CHR ''a'' @ ''b'')
          (replicate (Suc 29999) CHR ''a'') 60 []) = 100"
    using accuracy_100_counts [OF cn, of 60 "[]"] n by simp
  then have "accuracy (calculateStats (replicate 29999 CHR ''a'' @ ''b'')
          (replicate 30000 CHR ''a'') 60 []) = 100"
    unfolding s .
  moreover have "(replicate 29999 CHR ''a'' @ ''b'') ! 29999 \<noteq> replicate 30000 CHR ''a'' ! 29999"
    by (simp add: nth_append)
  moreover have "29999 < length (replicate 29999 CHR ''a'' @ ''b'')"
    by simp
  ultimately show ?thesis by blast
qed

text \<open>
  C8, amended: the accuracy is 100 exactly when the typed text is not empty and at most
  one typed character in 20000 is incorrect; for a typed text shorter than 20000
  characters that is exactly when it is not empty and every typed character matches. For
  the empty typed text the accuracy is 0.
\<close>

theorem C8_accuracy_100:
  "(accuracy (calculateStats input src e h) = 100 \<longleftrightarrow>
      input \<noteq> [] \<and>
      20000 * incorrectChars (calculateStats input src e h)
        \<le> totalChars (calculateStats input src e h)) \<and>
   (length input < 20000 \<longrightarrow>
      (accuracy (calculateStats input src e h) = 100 \<longleftrightarrow>
         input \<noteq> [] \<and> (\<forall>i<length input. i < length src \<and> input ! i = src ! i))) \<and>
   accuracy (calculateStats [] src e h) = 0"
proof -
  obtain c n where cn: "scoreLoop input src 0 0 0 = (c, n)"
    by (cases "scoreLoop input src 0 0 0")
  have fields: "incorrectChars (calculateStats input src e h) = n"
    "totalChars (calculateStats input src e h) = length input"
    by (simp_all add: calculateStats_def cn Let_def)
  have one: "accuracy (calculateStats input src e h) = 100 \<longleftrightarrow>
      input \<noteq> [] \<and> 20000 * n \<le> length input"
    using cn by (rule accuracy_100_counts)
  have two: "length input < 20000 \<longrightarrow>
      (accuracy (calculateStats input src e h) = 100 \<longleftrightarrow>
         input \<noteq> [] \<and> (\<forall>i<length input. i < length src \<and> input ! i = src ! i))"
  proof
    assume short: "length input < 20000"
    then have "20000 * n \<le> length input \<longleftrightarrow> n = 0" by auto
    then show "accuracy (calculateStats input src e h) = 100 \<longleftrightarrow>
         input \<noteq> [] \<and> (\<forall>i<length input. i < length src \<and> input ! i = src ! i)"
      using one incorrect_zero_iff [OF cn] by simp
  qed
  have three: "accuracy (calculateStats [] src e h) = 0"
    by (simp add: calculateStats_def Let_def accuracyOf_def split: prod.splits)
  from one two three show ?thesis unfolding fields by blast
qed

theorem C8_accuracy_100_witness:
  "length ''abc'' < 20000 \<and>
   accuracy (calculateStats ''abc'' ''abcd'' 60 []) = 100 \<and>
   accuracy (calculateStats ''abx'' ''abcd'' 60 []) \<noteq> 100"
proof -
  have m: "\<forall>i<length ''abc''. i < length ''abcd'' \<and> ''abc'' ! i = ''abcd'' ! i"
    by (simp add: less_Suc_eq nth_Cons' all_conj_distrib)
  have nm: "\<not> (\<forall>i<length ''abx''. i < length ''abcd'' \<and> ''abx'' ! i = ''abcd'' ! i)"
    by (simp add: nth_Cons' exI [of _ 2])
  have s1: "length ''abc'' < 20000" and s2: "length ''abx'' < 20000" and ne: "''abc'' \<noteq> []"
    by simp_all
  have "accuracy (calculateStats ''abc'' ''abcd'' 60 []) = 100"
    using C8_accuracy_100 [of "''abc''" "''abcd''" 60 "[]"] m s1 ne by blast
  moreover have "accuracy (calculateStats ''abx'' ''abcd'' 60 []) \<noteq> 100"
    using C8_accuracy_100 [of "''abx''" "''abcd''" 60 "[]"] nm s2 by blast
  ultimately show ?thesis using s1 by blast
qed

text \<open>
  C9, as stated, has the reset clear the derived statistics. \<open>resetTest\<close> never calls
  \<open>setStats\<close>: after a reset the statistics of the last input update are still there.
\<close>

theorem C9_reset_counterexample:
  "testState (handleInputChange 0 ''ab'' (startTest ''abc'' 1000 1000 initialState)) = Active \<and>
   totalChars (stats (resetTest
      (handleInputChange 0 ''ab'' (startTest ''abc'' 1000 1000 initialState)))) = 2 \<and>
   stats (resetTest (handleInputChange 0 ''ab'' (startTest ''abc'' 1000 1000 initialState)))
     \<noteq> initialStats"
  by (simp add: handleInputChange_def Let_def startTest_def setIntervalRef_def initialState_def
      isCompleted_def resetTest_def clearIntervalRef_def calculateStats_def initialStats_def
      split: prod.splits)

text \<open>
  C9, amended: in every active or paused state in which no interval other than the one
  \<open>timerRef\<close> holds is scheduled (all reachable states are such), the reset makes the
  state idle, empties the typed text and the samples, sets the character index and the
  current time to 0 and leaves no interval scheduled; the statistics keep their last
  value.
\<close>

theorem C9_reset:
  "testState s = Active \<or> testState s = Paused \<Longrightarrow>
   set (liveTimers s) \<subseteq> set_option (timerRef s) \<Longrightarrow>
   testState (resetTest s) = Idle \<and>
   userInput (resetTest s) = [] \<and>
   currentCharIndex (resetTest s) = 0 \<and>
   currentTime (resetTest s) = 0 \<and>
   wpmHistory (resetTest s) = [] \<and>
   capsLockWarning (resetTest s) = False \<and>
   liveTimers (resetTest s) = [] \<and>
   stats (resetTest s) = stats s"
  by (auto simp add: resetTest_def clearIntervalRef_def removeAll_only split: option.splits)

theorem C9_reset_witness:
  "testState (handleInputChange 0 ''ab'' (startTest ''abc'' 1000 1000 initialState)) = Active \<and>
   liveTimers (handleInputChange 0 ''ab'' (startTest ''abc'' 1000 1000 initialState)) = [1] \<and>
   timerRef (handleInputChange 0 ''ab'' (startTest ''abc'' 1000 1000 initialState)) = Some 1 \<and>
   userInput (handleInputChange 0 ''ab'' (startTest ''abc'' 1000 1000 initialState)) = ''ab'' \<and>
   userInput (resetTest (handleInputChange 0 ''ab'' (startTest ''abc'' 1000 1000 initialState))) = [] \<and>
   liveTimers (resetTest (handleInputChange 0 ''ab'' (startTest ''abc'' 1000 1000 initialState))) = [] \<and>
   testState (resetTest (handleInputChange 0 ''ab'' (startTest ''abc'' 1000 1000 initialState))) = Idle"
proof -
  let ?s = "handleInputChange 0 ''ab'' (startTest ''abc'' 1000 1000 initialState)"
  have pre: "testState ?s = Active \<and> liveTimers ?s = [1] \<and> timerRef ?s = Some 1 \<and>
             userInput ?s = ''ab''"
    by (simp add: handleInputChange_def Let_def startTest_def setIntervalRef_def
        initialState_def isCompleted_def sampleDue_def elapsedOf_def)
  then have h1: "testState ?s = Active \<or> testState ?s = Paused"
    and h2: "set (liveTimers ?s) \<subseteq> set_option (timerRef ?s)" by simp_all
  from C9_reset [OF h1 h2] pre show ?thesis by simp
qed

text \<open>
  C10: in every state that is not active (idle, paused or completed) an input update
  changes nothing: the typed text, the samples, the statistics, the test state and the
  history stay as they are, so no sample is taken and no completion is checked.
\<close>

theorem C10_inactive_input_noop:
  "testState s \<noteq> Active \<Longrightarrow>
   handleInputChange now v s = s \<and>
   userInput (handleInputChange now v s) = userInput s \<and>
   wpmHistory (handleInputChange now v s) = wpmHistory s \<and>
   stats (handleInputChange now v s) = stats s \<and>
   testState (handleInputChange now v s) = testState s \<and>
   testResults (handleInputChange now v s) = testResults s"
  by (simp add: handleInputChange_def)

theorem C10_inactive_input_noop_witness:
  "testState (initialState\<lparr>testState := Paused, userInput := ''ab''\<rparr>) \<noteq> Active \<and>
   handleInputChange 5 ''abc'' (initialState\<lparr>testState := Paused, userInput := ''ab''\<rparr>)
     = initialState\<lparr>testState := Paused, userInput := ''ab''\<rparr>"
  using C10_inactive_input_noop [of "initialState\<lparr>testState := Paused, userInput := ''ab''\<rparr>" 5 "''abc''"]
  by simp

end
